theory Spec2Isabelle
  imports Main "HOL-Library.Word"
begin

unbundle bit_operations_syntax

section \<open>The AUX pin handler of the Bus Pirate firmware (Firmware/aux\_pin.c)\<close>

text \<open>
  The firmware runs on a 16-bit PIC24: \<open>int\<close> and \<open>unsigned int\<close> are 16 bits wide,
  so \<open>uint16_t\<close> arithmetic is not promoted and wraps modulo \<open>2 ^ 16\<close>.
  \<open>unsigned long long\<close> is 64 bits wide.
\<close>

type_synonym uint8_t = "8 word"
type_synonym uint16_t = "16 word"
type_synonym uint32_t = "32 word"
type_synonym uint64_t = "64 word"

subsection \<open>Data model\<close>

text \<open>\<open>aux_mode_t\<close>: the possible modes of the AUX pin.\<close>

datatype aux_mode_t = AUX_MODE_IO | AUX_MODE_FREQUENCY | AUX_MODE_PWM

text \<open>\<open>aux_state_t\<close>: the internal state variables of the AUX pin manager.\<close>

record aux_state_t =
  pwm_frequency :: uint16_t
  pwm_duty_cycle :: uint16_t
  mode :: aux_mode_t

text \<open>
  The special function registers the file writes. A register that the code only
  accesses through one of its bit fields (\<open>RPOR10bits.RP20R\<close> behind \<open>AUXPIN_RPOUT\<close>,
  \<open>TRISDbits.TRISD5\<close> behind \<open>AUXPIN_DIR\<close>, \<open>RPINR3bits.T2CKR\<close>, \<open>RPINR7bits.IC1R\<close>,
  \<open>IFS1bits.T5IF\<close>, ...) is a location of its own, holding the value of the field.
  Registers written both whole and by bit field (\<open>T2CON\<close>, \<open>T4CON\<close>) hold the whole
  16-bit word.
\<close>

datatype sfr =
    T2CON | T4CON | OC5CON | OC5R | OC5RS
  | PR2 | PR3 | PR4 | PR5
  | TMR2 | TMR3HLD | TMR4 | TMR5HLD
  | IC1CON | IC2CON | IC1CON1 | IC1CON2 | IC2CON1 | IC2CON2
  | AUXPIN_RPOUT | AUXPIN_DIR
  | RPINR3_T2CKR | RPINR7_IC1R | RPINR7_IC2R
  | IFS0_IC1IF | IFS0_IC2IF | IFS1_T5IF

type_synonym registers = "sfr \<Rightarrow> uint16_t"

text \<open>
  What the file sends to the terminal: the message macros it expands
  (\<open>BPMSG1028\<close>, ..., \<open>bpBR\<close>) and the characters it transmits.
\<close>

datatype message =
    BPMSG1028 | BPMSG1029 | BPMSG1030 | BPMSG1033 | BPMSG1034
  | BPMSG1037 | BPMSG1038 | BPMSG1245 | BPMSG1254 | BPMSG1255
  | MSG_PWM_HZ_MARKER | MSG_PWM_FREQUENCY_TOO_LOW | bpBR

datatype uart_out = Message message | UART1TX char

text \<open>
  The state of the command-line layer that the file shares with \<open>proc_menu.c\<close>:
  the command buffer, its read position, the error flag, the bytes the user will
  still type, and everything sent to the terminal so far.
\<close>

record console =
  cmdbuf :: "nat \<Rightarrow> uint8_t"
  cmdstart :: uint16_t
  command_error :: bool
  keys :: "uint8_t list"
  uart :: "uart_out list"

definition emit :: "uart_out list \<Rightarrow> console \<Rightarrow> console" where
  "emit xs c = c\<lparr>uart := uart c @ xs\<rparr>"

text \<open>
  The signal on the AUX pin, as the hardware will present it to the busy-waiting code.
  \<open>windows\<close>: for each one-second window of timer 4 that will elapse, what the
  edge counter \<open>TMR2\<close> and its high word \<open>TMR3HLD\<close> hold at its end.
  \<open>captures\<close>: for each rising edge that will be captured once the capture units
  are armed and flushed, what \<open>IC1BUF\<close> and \<open>IC2BUF\<close> deliver. A wait for an event
  that the signal does not hold never ends.
\<close>

record aux_signal =
  windows :: "(uint16_t \<times> uint16_t) list"
  captures :: "(uint16_t \<times> uint16_t) list"

text \<open>
  The whole machine: the static \<open>state\<close>, the registers, the console and the signal
  on the pin.
\<close>

record machine =
  state :: aux_state_t
  regs :: registers
  con :: console
  pin :: aux_signal

text \<open>
  How a call can fail to return normally: an integer division by zero (a math error
  trap on this processor), a conversion of a floating-point number to an unsigned
  integer that cannot hold it (undefined in C), and a busy wait that never ends.
\<close>

datatype fault = Division_by_zero | Float_out_of_range | Stalled

text \<open>
  What the file takes from headers and files that are not part of it: the
  peripheral-pin-select code of output compare unit 5 (\<open>OC5_IO\<close>), the remappable
  pin number of the AUX pin (\<open>BP_AUX_RPIN\<close>), the command buffer mask, the board
  variant, and the functions of the command-line layer. The latter run on the console
  only: \<open>state\<close> is \<open>static\<close> in this file, and the terminal layer does not touch the
  timer, capture and output compare registers. \<open>getint\<close> and \<open>getnumber\<close> return an
  \<open>int\<close>, 16 bits wide and read as signed where the code does.

  \<open>double_quotient c p\<close> stands for \<open>(unsigned long long) (c / p)\<close> with the
  \<open>double\<close> literal \<open>c\<close> and \<open>p\<close> converted to \<open>double\<close>: the width of
  \<open>double\<close> is a compiler option on this target, and the conversion is undefined
  for \<open>p = 0\<close>. The number of digits written does not depend on it.
\<close>

record platform =
  OC5_IO :: uint16_t
  AUXPIN_RPIN :: uint16_t
  CMDLENMSK :: uint16_t
  BUSPIRATEV4 :: bool
  consumewhitechars :: "console \<Rightarrow> console"
  getint :: "console \<Rightarrow> uint16_t \<times> console"
  getnumber :: "int \<Rightarrow> int \<Rightarrow> int \<Rightarrow> int \<Rightarrow> console \<Rightarrow> uint16_t \<times> console"
  double_quotient :: "nat \<Rightarrow> uint64_t \<Rightarrow> uint64_t"

subsection \<open>Bit fields of the timer control registers\<close>

text \<open>
  The layout of \<open>TxCON\<close>, as the register diagrams in \<open>bp_measure_frequency\<close> and the
  literal \<open>0b111010 //(TCKPS1|TCKPS0|T32|TCS)\<close> give it: \<open>TON\<close> is bit 15,
  \<open>TCKPS1\<close> and \<open>TCKPS0\<close> are bits 5 and 4, \<open>T32\<close> is bit 3, \<open>TCS\<close> is bit 1.
\<close>

definition TON_POSITION :: nat where "TON_POSITION = 15"
definition TCKPS1_POSITION :: nat where "TCKPS1_POSITION = 5"
definition TCKPS0_POSITION :: nat where "TCKPS0_POSITION = 4"
definition T32_POSITION :: nat where "T32_POSITION = 3"
definition TCS_POSITION :: nat where "TCS_POSITION = 1"

definition ON :: bool where "ON = True"
definition OFF :: bool where "OFF = False"
definition YES :: bool where "YES = True"

text \<open>\<open>REGbits.FIELD = b\<close> for a one-bit field at position \<open>n\<close>.\<close>

definition write_bit :: "nat \<Rightarrow> bool \<Rightarrow> uint16_t \<Rightarrow> uint16_t" where
  "write_bit n b w = (if b then set_bit n w else unset_bit n w)"

text \<open>The prescaler selection of a timer: 0 is 1:1, 1 is 1:8, 2 is 1:64, 3 is 1:256.\<close>

definition TCKPS :: "uint16_t \<Rightarrow> nat" where
  "TCKPS w = (if bit w TCKPS1_POSITION then 2 else 0) + (if bit w TCKPS0_POSITION then 1 else 0)"

subsection \<open>PWM generation\<close>

definition PWM_DIVISOR_PRESCALER_1_256 :: uint16_t where "PWM_DIVISOR_PRESCALER_1_256 = 62"
definition PWM_DIVISOR_PRESCALER_1_64 :: uint16_t where "PWM_DIVISOR_PRESCALER_1_64 = 250"
definition PWM_DIVISOR_PRESCALER_1_8 :: uint16_t where "PWM_DIVISOR_PRESCALER_1_8 = 2000"
definition PWM_DIVISOR_PRESCALER_1_1 :: uint16_t where "PWM_DIVISOR_PRESCALER_1_1 = 16000"

text \<open>
  \<open>setup_prescaler_divisor\<close>: sets timer 2's input clock prescaler for the given
  frequency and returns the divisor that goes with it.
\<close>

definition setup_prescaler_divisor :: "uint16_t \<Rightarrow> registers \<Rightarrow> uint16_t \<times> registers" where
  "setup_prescaler_divisor frequency r =
     (if frequency < 4 then
        (PWM_DIVISOR_PRESCALER_1_256,
         r(T2CON := write_bit TCKPS0_POSITION ON (write_bit TCKPS1_POSITION ON (r T2CON))))
      else if frequency < 31 then
        (PWM_DIVISOR_PRESCALER_1_64,
         r(T2CON := write_bit TCKPS0_POSITION OFF (write_bit TCKPS1_POSITION ON (r T2CON))))
      else if frequency < 245 then
        (PWM_DIVISOR_PRESCALER_1_8,
         r(T2CON := write_bit TCKPS0_POSITION ON (write_bit TCKPS1_POSITION OFF (r T2CON))))
      else
        (PWM_DIVISOR_PRESCALER_1_1,
         r(T2CON := write_bit TCKPS0_POSITION OFF (write_bit TCKPS1_POSITION OFF (r T2CON)))))"

text \<open>
  \<open>bp_update_pwm\<close>: records the frequency and the duty cycle, shuts the timers down,
  and either detaches the AUX pin (frequency 0) or programs the PWM generator. The
  division by \<open>frequency\<close> is only reached when \<open>frequency\<close> is not 0.
\<close>

definition bp_update_pwm :: "platform \<Rightarrow> uint16_t \<Rightarrow> uint16_t \<Rightarrow> machine \<Rightarrow> machine" where
  "bp_update_pwm P frequency duty_cycle m =
     (let s1 = (state m)\<lparr>pwm_frequency := frequency, pwm_duty_cycle := duty_cycle\<rparr>;
          r1 = (regs m)(T2CON := 0, T4CON := 0, OC5CON := 0)
      in if frequency = 0 then
           m\<lparr>state := s1\<lparr>mode := AUX_MODE_IO\<rparr>, regs := r1(AUXPIN_RPOUT := 0)\<rparr>
         else
           (case setup_prescaler_divisor frequency r1 of (divisor, r2) \<Rightarrow>
              let period = divisor div frequency - 1;
                  r3 = r2(PR2 := period);
                  cycle = (period * duty_cycle) div 100;
                  r4 = r3(AUXPIN_RPOUT := OC5_IO P, OC5R := cycle, OC5RS := cycle, OC5CON := 0x06);
                  r5 = r4(T2CON := write_bit TON_POSITION ON (r4 T2CON))
              in m\<lparr>state := s1\<lparr>mode := AUX_MODE_PWM\<rparr>, regs := r5\<rparr>))"

text \<open>\<open>bp_update_duty_cycle\<close>: reprograms the PWM at the recorded frequency.\<close>

definition bp_update_duty_cycle :: "platform \<Rightarrow> uint16_t \<Rightarrow> machine \<Rightarrow> machine" where
  "bp_update_duty_cycle P duty_cycle m = bp_update_pwm P (pwm_frequency (state m)) duty_cycle m"

subsection \<open>Single-precision floating point\<close>

text \<open>
  \<open>float\<close> is the IEEE 754 binary32 format: a significand of 24 bits, rounding to
  nearest with ties to even, exponents from \<open>-149\<close> (the subnormal numbers) upwards.
  \<open>Float m e\<close> is the number \<open>m * 2 ^ e\<close>. Infinities and NaN are not represented:
  every float in this file comes from a 16-bit integer by a division by 100 or 3500, a
  multiplication by a 16-bit integer and an addition of 62, which stay far inside the
  finite range.
\<close>

datatype float = Float int int

text \<open>The number of bits of a positive integer.\<close>

function bitlen :: "int \<Rightarrow> int" where
  "bitlen n = (if n \<le> 0 then 0 else 1 + bitlen (n div 2))"
  by pat_completeness auto
termination
  by (relation "measure nat") auto

declare bitlen.simps [simp del]

text \<open>The integer nearest to \<open>n / d\<close> for \<open>0 < d\<close>, ties to the even one.\<close>

definition round_half_even :: "int \<Rightarrow> int \<Rightarrow> int" where
  "round_half_even n d =
     (let q = n div d; r = n mod d
      in if 2 * r < d then q else if d < 2 * r then q + 1 else if even q then q else q + 1)"

text \<open>\<open>reaches a d k\<close>: \<open>2 ^ k \<le> a / d\<close>, for positive \<open>a\<close> and \<open>d\<close>.\<close>

definition reaches :: "int \<Rightarrow> int \<Rightarrow> int \<Rightarrow> bool" where
  "reaches a d k = (if 0 \<le> k then d * 2 ^ nat k \<le> a else d \<le> a * 2 ^ nat (- k))"

text \<open>
  The binary32 number nearest to \<open>n / d\<close> for \<open>0 < d\<close>: with \<open>l\<close> the exponent of
  the leading bit of \<open>\<bar>n\<bar> / d\<close>, the quotient is rounded to a multiple of
  \<open>2 ^ (l - 23)\<close>.
\<close>

definition float_round :: "int \<Rightarrow> int \<Rightarrow> float" where
  "float_round n d =
     (if n = 0 then Float 0 0
      else
        let a = \<bar>n\<bar>;
            k = bitlen a - bitlen d;
            l = (if reaches a d k then k else k - 1);
            e = max (l - 23) (- 149)
        in if 0 \<le> e then Float (round_half_even n (d * 2 ^ nat e)) e
           else Float (round_half_even (n * 2 ^ nat (- e)) d) e)"

text \<open>A float as a fraction: numerator and positive denominator.\<close>

fun numerator :: "float \<Rightarrow> int" where
  "numerator (Float m e) = (if 0 \<le> e then m * 2 ^ nat e else m)"

fun denominator :: "float \<Rightarrow> int" where
  "denominator (Float m e) = (if 0 \<le> e then 1 else 2 ^ nat (- e))"

text \<open>Conversion from an integer, and the arithmetic and comparison of C on floats.\<close>

definition float_of_int :: "int \<Rightarrow> float" where
  "float_of_int i = float_round i 1"

definition float_div :: "float \<Rightarrow> float \<Rightarrow> float" where
  "float_div x y =
     (if 0 < numerator y
      then float_round (numerator x * denominator y) (denominator x * numerator y)
      else float_round (- (numerator x * denominator y)) (denominator x * (- numerator y)))"

definition float_mul :: "float \<Rightarrow> float \<Rightarrow> float" where
  "float_mul x y = float_round (numerator x * numerator y) (denominator x * denominator y)"

definition float_add :: "float \<Rightarrow> float \<Rightarrow> float" where
  "float_add x y =
     float_round (numerator x * denominator y + numerator y * denominator x)
       (denominator x * denominator y)"

definition float_less :: "float \<Rightarrow> float \<Rightarrow> bool" where
  "float_less x y = (numerator x * denominator y < numerator y * denominator x)"

text \<open>
  Conversion to \<open>unsigned int\<close>: the fraction is discarded (truncation towards
  zero); the result is undefined when the integral part is not in \<open>[0, 65535]\<close>.
\<close>

definition float_trunc :: "float \<Rightarrow> int" where
  "float_trunc x =
     (if 0 \<le> numerator x then numerator x div denominator x
      else - ((- numerator x) div denominator x))"

definition float_to_unsigned :: "float \<Rightarrow> fault + uint16_t" where
  "float_to_unsigned x =
     (let t = float_trunc x
      in if 0 \<le> t \<and> t < 2 ^ 16 then Inr (word_of_int t) else Inl Float_out_of_range)"

subsection \<open>The interactive PWM command\<close>

text \<open>\<open>cmdbuf[((cmdstart + 1) & CMDLENMSK)]\<close>: the character after the command letter.\<close>

definition cmd_ahead :: "platform \<Rightarrow> console \<Rightarrow> uint8_t" where
  "cmd_ahead P c = cmdbuf c (unat ((cmdstart c + 1) AND CMDLENMSK P))"

text \<open>
  \<open>bp_pwm_setup\<close>: stops a running PWM (and returns when the command has no
  arguments); otherwise takes frequency and duty cycle from the command line, or
  prompts for both when either is out of range, and programs the PWM generator.
  \<open>PWM_freq\<close>, \<open>PWM_period\<close>, \<open>PWM_dutycycle\<close> and \<open>PWM_div\<close> are
  \<open>unsigned int\<close>, \<open>PWM_pd\<close> is a \<open>float\<close>.
\<close>

definition bp_pwm_setup :: "platform \<Rightarrow> machine \<Rightarrow> fault + machine" where
  "bp_pwm_setup P m =
     (let m1 = m\<lparr>regs := (regs m)(T2CON := 0, T4CON := 0, OC5CON := 0)\<rparr>;
          m2 = (if mode (state m1) = AUX_MODE_PWM
                then m1\<lparr>regs := (regs m1)(AUXPIN_RPOUT := 0),
                        con := emit [Message BPMSG1028] (con m1),
                        state := (state m1)\<lparr>mode := AUX_MODE_IO\<rparr>\<rparr>
                else m1)
      in if mode (state m1) = AUX_MODE_PWM \<and> cmd_ahead P (con m2) = 0x00 then Inr m2
         else
           let c1 = (con m2)\<lparr>cmdstart := (cmdstart (con m2) + 1) AND CMDLENMSK P\<rparr>
           in case getint P (consumewhitechars P c1) of (PWM_freq, c2) \<Rightarrow>
              case getint P (consumewhitechars P c2) of (n, c3) \<Rightarrow>
              let PWM_pd = float_of_int (sint n);
                  done = (if 0 < PWM_freq \<and> PWM_freq < 4000 then 1 else 0)
                       + (if float_less (float_of_int 0) PWM_pd
                             \<and> float_less PWM_pd (float_of_int 100) then 1 else (0 :: nat))
              in case (if done \<noteq> 2
                       then getnumber P 50 1 4000 0
                              (emit [Message BPMSG1029, Message BPMSG1030]
                                 (c3\<lparr>command_error := False\<rparr>))
                       else (PWM_freq, c3)) of (PWM_freq, c4) \<Rightarrow>
                 if PWM_freq = 0 then Inl Division_by_zero
                 else
                   case setup_prescaler_divisor PWM_freq (regs m2) of (PWM_div, r1) \<Rightarrow>
                   let PWM_period = PWM_div div PWM_freq - 1
                   in case (if done \<noteq> 2
                            then (case getnumber P 50 0 99 0 (emit [Message BPMSG1033] c4) of
                                    (k, c5) \<Rightarrow> (float_of_int (sint k), c5))
                            else (PWM_pd, c4)) of (PWM_pd, c6) \<Rightarrow>
                      case float_to_unsigned
                             (float_mul (float_of_int (uint PWM_period))
                                (float_div PWM_pd (float_of_int 100))) of
                        Inl e \<Rightarrow> Inl e
                      | Inr PWM_dutycycle \<Rightarrow>
                          let r2 = r1(AUXPIN_RPOUT := OC5_IO P, OC5R := PWM_dutycycle,
                                      OC5RS := PWM_dutycycle, OC5CON := 0x6, PR2 := PWM_period);
                              r3 = r2(T2CON := write_bit TON_POSITION ON (r2 T2CON))
                          in Inr (m2\<lparr>regs := r3, con := emit [Message BPMSG1034] c6,
                                     state := (state m2)\<lparr>mode := AUX_MODE_PWM\<rparr>\<rparr>))"

subsection \<open>The servo command\<close>

text \<open>
  The code from the label \<open>servoset\<close> to the assignment of the mode: the prescaler
  bits, the fixed period of 1250 ticks, the on-time
  \<open>(PWM_period * (PWM_pd / 3500)) + 62\<close> computed in \<open>float\<close> and converted to
  \<open>unsigned int\<close>, and the registers of the PWM generator.
\<close>

definition servoset :: "platform \<Rightarrow> float \<Rightarrow> machine \<Rightarrow> fault + machine" where
  "servoset P PWM_pd m =
     (let r1 = (regs m)(T2CON := write_bit TCKPS0_POSITION True
                                  (write_bit TCKPS1_POSITION True (regs m T2CON)));
          PWM_period = 1250 :: uint16_t;
          PWM_pd = float_div PWM_pd (float_of_int 3500)
      in case float_to_unsigned
                (float_add (float_mul (float_of_int (uint PWM_period)) PWM_pd)
                   (float_of_int 62)) of
           Inl e \<Rightarrow> Inl e
         | Inr PWM_dutycycle \<Rightarrow>
             let r2 = r1(AUXPIN_RPOUT := OC5_IO P, OC5R := PWM_dutycycle,
                         OC5RS := PWM_dutycycle, OC5CON := 0x6, PR2 := PWM_period);
                 r3 = r2(T2CON := write_bit TON_POSITION ON (r2 T2CON))
             in Inr (m\<lparr>regs := r3, con := emit [Message BPMSG1255] (con m),
                       state := (state m)\<lparr>mode := AUX_MODE_PWM\<rparr>\<rparr>))"

text \<open>
  The loop that \<open>goto servoset\<close> closes: after programming the servo, and only when
  the angle was prompted for, the next angle is read until a negative number ends
  the loop. The user may go on for ever.
\<close>

partial_function (option) servo_entry_loop ::
  "platform \<Rightarrow> float \<Rightarrow> bool \<Rightarrow> machine \<Rightarrow> (fault + machine) option" where
  "servo_entry_loop P PWM_pd entryloop m =
     (case servoset P PWM_pd m of
        Inl e \<Rightarrow> Some (Inl e)
      | Inr m1 \<Rightarrow>
          if entryloop then
            (case getnumber P (- 1) 0 180 1 (con m1) of (n, c) \<Rightarrow>
               if float_less (float_of_int (sint n)) (float_of_int 0)
               then Some (Inr (m1\<lparr>con := emit [Message bpBR] c\<rparr>))
               else servo_entry_loop P (float_of_int (sint n)) entryloop (m1\<lparr>con := c\<rparr>))
          else Some (Inr m1))"

text \<open>
  \<open>bp_servo_setup\<close>: stops a running PWM when the command has no arguments;
  otherwise takes the angle from the command line, or prompts for it when it is
  missing or above 180, and enters the loop above.
\<close>

definition bp_servo_setup :: "platform \<Rightarrow> machine \<Rightarrow> (fault + machine) option" where
  "bp_servo_setup P m =
     (let m1 = m\<lparr>regs := (regs m)(T2CON := 0, T4CON := 0, OC5CON := 0)\<rparr>
      in if mode (state m1) = AUX_MODE_PWM \<and> cmd_ahead P (con m1) = 0x00 then
           Some (Inr (m1\<lparr>regs := (regs m1)(AUXPIN_RPOUT := 0),
                         con := emit [Message BPMSG1028] (con m1),
                         state := (state m1)\<lparr>mode := AUX_MODE_IO\<rparr>\<rparr>))
         else
           let c1 = (con m1)\<lparr>cmdstart := (cmdstart (con m1) + 1) AND CMDLENMSK P\<rparr>
           in case getint P (consumewhitechars P c1) of (n, c2) \<Rightarrow>
              let PWM_pd = float_of_int (sint n)
              in if command_error c2 \<or> float_less (float_of_int 180) PWM_pd then
                   (case getnumber P 90 0 180 0
                           (emit [Message BPMSG1254] (c2\<lparr>command_error := False\<rparr>)) of
                      (k, c3) \<Rightarrow>
                        servo_entry_loop P (float_of_int (sint k)) True (m1\<lparr>con := c3\<rparr>))
                 else servo_entry_loop P PWM_pd False (m1\<lparr>con := c2\<rparr>))"

subsection \<open>Decimal output\<close>

text \<open>
  Modelled from the spec: \<open>bp_write_dec_byte\<close>, \<open>bp_write_dec_word\<close>,
  \<open>bp_write_dec_dword\<close> and \<open>bp_write_dec_dword_friendly\<close> are defined in
  \<open>base.c\<close>, which is not part of this file. They transmit their argument (8, 16, 32
  and 32 bits wide, as their names say) in decimal, without leading zeros; the
  friendly one separates groups of three digits by a comma ("formatted with thousands
  separators").
\<close>

definition digits :: string where
  "digits = ''0123456789''"

definition digit_char :: "nat \<Rightarrow> char" where
  "digit_char d = digits ! d"

fun decimal :: "nat \<Rightarrow> string" where
  "decimal n = (if n < 10 then [digit_char n] else decimal (n div 10) @ [digit_char (n mod 10)])"

declare decimal.simps [simp del]

definition three_digits :: "nat \<Rightarrow> string" where
  "three_digits n = [digit_char (n div 100 mod 10), digit_char (n div 10 mod 10), digit_char (n mod 10)]"

fun decimal_friendly :: "nat \<Rightarrow> string" where
  "decimal_friendly n =
     (if n < 1000 then decimal n
      else decimal_friendly (n div 1000) @ CHR '','' # three_digits (n mod 1000))"

declare decimal_friendly.simps [simp del]

definition bp_write_dec_byte :: "uint8_t \<Rightarrow> uart_out list" where
  "bp_write_dec_byte v = map UART1TX (decimal (unat v))"

definition bp_write_dec_word :: "uint16_t \<Rightarrow> uart_out list" where
  "bp_write_dec_word v = map UART1TX (decimal (unat v))"

definition bp_write_dec_dword :: "uint32_t \<Rightarrow> uart_out list" where
  "bp_write_dec_dword v = map UART1TX (decimal (unat v))"

definition bp_write_dec_dword_friendly :: "uint32_t \<Rightarrow> uart_out list" where
  "bp_write_dec_dword_friendly v = map UART1TX (decimal_friendly (unat v))"

subsection \<open>Frequency measurement\<close>

text \<open>
  \<open>poll_frequency_counter_value\<close>: counts the edges on the AUX pin for one second.
  Both timers are set to 32 bits and started; the wait for the interrupt flag of
  timer 4 ends when the one-second window does, with the flag raised and the edge
  count in \<open>TMR3HLD:TMR2\<close>.
\<close>

definition poll_frequency_counter_value :: "machine \<Rightarrow> fault + uint32_t \<times> machine" where
  "poll_frequency_counter_value m =
     (let r1 = (regs m)(PR3 := 0xFFFF, PR2 := 0xFFFF, TMR3HLD := 0, TMR2 := 0,
                        TMR5HLD := 0, TMR4 := 0);
          r2 = r1(T4CON := write_bit T32_POSITION YES (r1 T4CON));
          r3 = r2(PR5 := 0x00F4, PR4 := 0x2400, IFS1_T5IF := 0);
          r4 = r3(T4CON := write_bit TON_POSITION ON (r3 T4CON));
          r5 = r4(T2CON := write_bit TON_POSITION ON (r4 T2CON))
      in case windows (pin m) of
           [] \<Rightarrow> Inl Stalled
         | (tmr2, tmr3hld) # later \<Rightarrow>
             let r6 = r5(IFS1_T5IF := 1, TMR2 := tmr2, TMR3HLD := tmr3hld);
                 r7 = r6(T2CON := write_bit TON_POSITION OFF (r6 T2CON));
                 r8 = r7(T4CON := write_bit TON_POSITION OFF (r7 T4CON));
                 counter_low = (ucast (r8 TMR2) :: uint32_t);
                 counter_high = (ucast (r8 TMR3HLD) :: uint32_t)
             in Inr (push_bit 16 counter_high + counter_low,
                     m\<lparr>regs := r8, pin := (pin m)\<lparr>windows := later\<rparr>\<rparr>))"

text \<open>
  The count that \<open>poll_frequency_counter_value\<close> returns for a window:
  \<open>(counter_high << 16) + counter_low\<close>.
\<close>

definition edge_count :: "uint16_t \<times> uint16_t \<Rightarrow> uint32_t" where
  "edge_count w = push_bit 16 (ucast (snd w)) + ucast (fst w)"

text \<open>
  Bit fields of the input capture control registers, as the register diagrams in
  \<open>average_sample_frequency\<close> give them. Without \<open>BUSPIRATEV4\<close>, in \<open>ICxCON\<close>:
  \<open>ICM\<close> from bit 0, \<open>ICI\<close> from bit 5, \<open>ICTMR\<close> bit 7, \<open>ICSIDL\<close> bit 13. With
  it, in \<open>ICxCON1\<close>: \<open>ICM\<close> from bit 0, \<open>ICI\<close> from bit 5, \<open>ICTSEL\<close> from bit 10,
  \<open>ICSIDL\<close> bit 13; in \<open>ICxCON2\<close>: \<open>SYNCSEL\<close> from bit 0, \<open>TRIGSTAT\<close> bit 6,
  \<open>ICTRIG\<close> bit 7, \<open>IC32\<close> bit 8.
\<close>

definition ICM_POSITION :: nat where "ICM_POSITION = 0"
definition ICI_POSITION :: nat where "ICI_POSITION = 5"
definition ICTMR_POSITION :: nat where "ICTMR_POSITION = 7"
definition ICTSEL_POSITION :: nat where "ICTSEL_POSITION = 10"
definition ICSIDL_POSITION :: nat where "ICSIDL_POSITION = 13"
definition SYNCSEL_POSITION :: nat where "SYNCSEL_POSITION = 0"
definition TRIGSTAT_POSITION :: nat where "TRIGSTAT_POSITION = 6"
definition ICTRIG_POSITION :: nat where "ICTRIG_POSITION = 7"
definition IC32_POSITION :: nat where "IC32_POSITION = 8"

text \<open>\<open>b << n\<close> for a flag \<open>b\<close>.\<close>

definition flag_at :: "bool \<Rightarrow> nat \<Rightarrow> uint16_t" where
  "flag_at b n = push_bit n (if b then 1 else 0)"

text \<open>
  The start of \<open>average_sample_frequency\<close>: the interrupt flags, the input pins of
  the capture units, the timer and the capture units of the board variant.
\<close>

definition arm_input_capture :: "platform \<Rightarrow> registers \<Rightarrow> registers" where
  "arm_input_capture P r =
     (let r1 = r(IFS0_IC2IF := 0, IFS0_IC1IF := 0,
                 RPINR7_IC2R := AUXPIN_RPIN P, RPINR7_IC1R := AUXPIN_RPIN P)
      in if BUSPIRATEV4 P then
           r1(TMR5HLD := 0x0000, TMR4 := 0x0000,
              T4CON := flag_at ON TON_POSITION OR flag_at ON T32_POSITION,
              IC2CON1 := push_bit ICM_POSITION 0b011 OR push_bit ICI_POSITION 0b00
                         OR push_bit ICTSEL_POSITION 0b011 OR flag_at OFF ICSIDL_POSITION,
              IC2CON2 := push_bit SYNCSEL_POSITION 0b10100 OR flag_at OFF TRIGSTAT_POSITION
                         OR flag_at OFF ICTRIG_POSITION OR flag_at OFF IC32_POSITION,
              IC1CON1 := push_bit ICM_POSITION 0b011 OR push_bit ICI_POSITION 0b00
                         OR push_bit ICTSEL_POSITION 0b010 OR flag_at OFF ICSIDL_POSITION,
              IC1CON2 := push_bit SYNCSEL_POSITION 0b10100 OR flag_at OFF TRIGSTAT_POSITION
                         OR flag_at OFF ICTRIG_POSITION OR flag_at OFF IC32_POSITION)
         else
           r1(TMR3HLD := 0x0000, TMR2 := 0x0000,
              T2CON := flag_at ON TON_POSITION OR flag_at ON T32_POSITION,
              IC2CON := push_bit ICM_POSITION 0b011 OR push_bit ICI_POSITION 0b00
                        OR flag_at OFF ICTMR_POSITION OR flag_at OFF ICSIDL_POSITION,
              IC1CON := push_bit ICM_POSITION 0b011 OR push_bit ICI_POSITION 0b00
                        OR flag_at ON ICTMR_POSITION OR flag_at OFF ICSIDL_POSITION))"

text \<open>Its end: the capture units and the timer are stopped.\<close>

definition stop_input_capture :: "platform \<Rightarrow> registers \<Rightarrow> registers" where
  "stop_input_capture P r =
     (if BUSPIRATEV4 P then
        (let r1 = r(IC1CON1 := 0x0000, IC2CON1 := 0x0000)
         in r1(T4CON := write_bit TON_POSITION OFF (r1 T4CON)))
      else
        (let r1 = r(IC1CON := 0x0000, IC2CON := 0x0000)
         in r1(T2CON := write_bit TON_POSITION OFF (r1 T2CON))))"

text \<open>
  The sampling loop, \<open>count\<close> times: wait for a capture, read both buffers, add the
  distance to the previous capture (in 32-bit arithmetic) to the total.
\<close>

fun sample_loop ::
  "nat \<Rightarrow> (uint16_t \<times> uint16_t) list \<Rightarrow> uint32_t \<Rightarrow> uint32_t \<Rightarrow> uint32_t
     \<Rightarrow> fault + uint32_t \<times> (uint16_t \<times> uint16_t) list" where
  "sample_loop 0 cs counter_low counter_high total_samples = Inr (total_samples, cs)"
| "sample_loop (Suc n) [] counter_low counter_high total_samples = Inl Stalled"
| "sample_loop (Suc n) ((ic1buf, ic2buf) # cs) counter_low counter_high total_samples =
     (let current_low = (ucast ic1buf :: uint32_t);
          current_high = (ucast ic2buf :: uint32_t)
      in sample_loop n cs current_low current_high
           (total_samples
              + (push_bit 16 (current_high - counter_high) + (current_low - counter_low))))"

text \<open>
  \<open>average_sample_frequency\<close>: the average distance, in timer ticks, between
  \<open>count + 1\<close> consecutive rising edges. The first capture after the flush is the
  starting point.
\<close>

definition average_sample_frequency ::
  "platform \<Rightarrow> uint16_t \<Rightarrow> machine \<Rightarrow> fault + uint32_t \<times> machine" where
  "average_sample_frequency P count m =
     (let r1 = arm_input_capture P (regs m)
      in case captures (pin m) of
           [] \<Rightarrow> Inl Stalled
         | (ic1buf, ic2buf) # cs \<Rightarrow>
             (case sample_loop (unat count) cs (ucast ic1buf) (ucast ic2buf) 0 of
                Inl e \<Rightarrow> Inl e
              | Inr (total_samples, later) \<Rightarrow>
                  if count = 0 then Inl Division_by_zero
                  else Inr (total_samples div ucast count,
                            m\<lparr>regs := stop_input_capture P r1,
                               pin := (pin m)\<lparr>captures := later\<rparr>\<rparr>)))"

text \<open>
  The first part of \<open>bp_frequency_counter_setup\<close>, up to the autorange decision:
  the timers are stopped, the AUX pin becomes the clock input of timer 2, and the edges
  are counted for one second with the prescaler at 1:256
  (\<open>0b111010\<close>: \<open>TCKPS1|TCKPS0|T32|TCS\<close>). A count above \<open>0x3fff\<close> is multiplied by
  256; otherwise the edges are counted for another second with the prescaler at 1:1
  (\<open>0b001010\<close>). \<open>f\<close> is an \<open>unsigned long long\<close>.
\<close>

definition count_edges_autorange :: "platform \<Rightarrow> machine \<Rightarrow> fault + uint64_t \<times> machine" where
  "count_edges_autorange P m =
     (let r1 = (regs m)(T4CON := 0, T2CON := 0, AUXPIN_DIR := 1,
                        RPINR3_T2CKR := AUXPIN_RPIN P, T2CON := 0b111010)
      in case poll_frequency_counter_value (m\<lparr>regs := r1\<rparr>) of
           Inl e \<Rightarrow> Inl e
         | Inr (c, m1) \<Rightarrow>
             let f = (ucast c :: uint64_t)
             in if f > 0x3fff then Inr (f * 256, m1)
                else
                  (case poll_frequency_counter_value
                          (m1\<lparr>con := emit [Message BPMSG1245] (con m1),
                              regs := (regs m1)(T2CON := 0b001010)\<rparr>) of
                     Inl e \<Rightarrow> Inl e
                   | Inr (c', m2) \<Rightarrow> Inr (ucast c', m2)))"

text \<open>
  The part that turns the average period \<open>p\<close> into a frequency and writes it: the
  scale and the number of digits after the decimal point depend on \<open>p\<close>. \<open>f\<close> and
  \<open>p\<close> are \<open>unsigned long long\<close>; the arguments of the output functions are
  converted to their parameter types.
\<close>

definition write_period_frequency :: "platform \<Rightarrow> uint64_t \<Rightarrow> uart_out list" where
  "write_period_frequency P p =
     (if p > 400000 then
        (let f = double_quotient P 1600000000000 p;
             g = f mod 100000
         in bp_write_dec_dword_friendly (ucast (f div 100000)) @ [UART1TX CHR ''.'']
            @ (if g < 10000 then [UART1TX CHR ''0''] else [])
            @ (if g < 1000 then [UART1TX CHR ''0''] else [])
            @ (if g < 100 then [UART1TX CHR ''0''] else [])
            @ (if g < 10 then [UART1TX CHR ''0''] else [])
            @ bp_write_dec_dword (ucast g))
      else if p > 126491 then
        (let f = double_quotient P 160000000000 p;
             g = f mod 10000
         in bp_write_dec_dword_friendly (ucast (f div 10000)) @ [UART1TX CHR ''.'']
            @ (if g < 1000 then [UART1TX CHR ''0''] else [])
            @ (if g < 100 then [UART1TX CHR ''0''] else [])
            @ (if g < 10 then [UART1TX CHR ''0''] else [])
            @ bp_write_dec_word (ucast g))
      else if p > 40000 then
        (let f = double_quotient P 16000000000 p;
             g = f mod 1000
         in bp_write_dec_dword_friendly (ucast (f div 1000)) @ [UART1TX CHR ''.'']
            @ (if g < 100 then [UART1TX CHR ''0''] else [])
            @ (if g < 10 then [UART1TX CHR ''0''] else [])
            @ bp_write_dec_word (ucast g))
      else if p > 12649 then
        (let f = double_quotient P 1600000000 p;
             g = f mod 100
         in bp_write_dec_dword_friendly (ucast (f div 100)) @ [UART1TX CHR ''.'']
            @ (if g < 10 then [UART1TX CHR ''0''] else [])
            @ bp_write_dec_byte (ucast g))
      else
        (let f = double_quotient P 160000000 p;
             g = f mod 10
         in bp_write_dec_dword_friendly (ucast (f div 10)) @ [UART1TX CHR ''.'']
            @ bp_write_dec_byte (ucast g)))"

text \<open>
  \<open>bp_frequency_counter_setup\<close>: refuses while the PWM is on; otherwise counts
  edges, writes a count above 3999 as it is, measures the average period of a slower
  signal and writes the frequency computed from it, and reports a count of zero as too
  low. At the end the clock input of timer 2 is detached and both timers are stopped.
\<close>

definition bp_frequency_counter_setup :: "platform \<Rightarrow> machine \<Rightarrow> fault + machine" where
  "bp_frequency_counter_setup P m =
     (if mode (state m) = AUX_MODE_PWM then Inr (m\<lparr>con := emit [Message BPMSG1037] (con m)\<rparr>)
      else
        case count_edges_autorange P (m\<lparr>con := emit [Message BPMSG1038] (con m)\<rparr>) of
          Inl e \<Rightarrow> Inl e
        | Inr (f, m1) \<Rightarrow>
            (case (if f > 3999 then
                     Inr (m1\<lparr>con := emit (bp_write_dec_dword_friendly (ucast f)
                                             @ [Message MSG_PWM_HZ_MARKER]) (con m1)\<rparr>)
                   else if f > 0 then
                     (case average_sample_frequency P (ucast f)
                             (m1\<lparr>con := emit [Message BPMSG1245] (con m1)\<rparr>) of
                        Inl e \<Rightarrow> Inl e
                      | Inr (p, m2) \<Rightarrow>
                          Inr (m2\<lparr>con := emit (write_period_frequency P (ucast p)
                                                  @ [Message MSG_PWM_HZ_MARKER]) (con m2)\<rparr>))
                   else Inr (m1\<lparr>con := emit [Message MSG_PWM_FREQUENCY_TOO_LOW] (con m1)\<rparr>)) of
               Inl e \<Rightarrow> Inl e
             | Inr m3 \<Rightarrow>
                 Inr (m3\<lparr>regs := (regs m3)(RPINR3_T2CKR := 0b11111, T4CON := 0, T2CON := 0)\<rparr>)))"

text \<open>
  What a call has sent to the terminal, and the digits that directly follow the first
  decimal point in it.
\<close>

definition sent :: "machine \<Rightarrow> machine \<Rightarrow> uart_out list" where
  "sent m m' = drop (length (uart (con m))) (uart (con m'))"

definition is_digit :: "uart_out \<Rightarrow> bool" where
  "is_digit x = (case x of UART1TX c \<Rightarrow> c \<in> set digits | Message _ \<Rightarrow> False)"

definition fraction_digits :: "uart_out list \<Rightarrow> uart_out list" where
  "fraction_digits xs = takeWhile is_digit (tl (dropWhile (\<lambda>x. x \<noteq> UART1TX CHR ''.'') xs))"

subsection \<open>A test bench\<close>

text \<open>
  The machine after reset: \<open>state\<close> is zero-initialised, and so is everything else.
\<close>

definition power_on :: machine where
  "power_on =
     \<lparr>state = \<lparr>pwm_frequency = 0, pwm_duty_cycle = 0, mode = AUX_MODE_IO\<rparr>,
      regs = (\<lambda>_. 0),
      con = \<lparr>cmdbuf = (\<lambda>_. 0), cmdstart = 0, command_error = False, keys = [], uart = []\<rparr>,
      pin = \<lparr>windows = [], captures = []\<rparr>\<rparr>"

text \<open>
  A stand-in for the command-line layer: \<open>getint\<close> finds no number on the command
  line and returns 0; \<open>getnumber\<close> reads the decimal number that the user types, up
  to the first key that is not a digit.
\<close>

fun read_number :: "nat \<Rightarrow> uint8_t list \<Rightarrow> nat \<times> uint8_t list" where
  "read_number acc [] = (acc, [])"
| "read_number acc (k # ks) =
     (if 48 \<le> k \<and> k \<le> 57 then read_number (acc * 10 + (unat k - 48)) ks else (acc, ks))"

definition bench_getnumber ::
  "int \<Rightarrow> int \<Rightarrow> int \<Rightarrow> int \<Rightarrow> console \<Rightarrow> uint16_t \<times> console" where
  "bench_getnumber def lo hi x c =
     (case read_number 0 (keys c) of (n, ks) \<Rightarrow> (word_of_nat n, c\<lparr>keys := ks\<rparr>))"

text \<open>
  The bench: pin codes as on the Bus Pirate v3, and a \<open>double\<close> quotient that is
  exact whenever the quotient is an integer.
\<close>

definition bench :: platform where
  "bench =
     \<lparr>OC5_IO = 22, AUXPIN_RPIN = 20, CMDLENMSK = 0xFF, BUSPIRATEV4 = False,
      consumewhitechars = (\<lambda>c. c),
      getint = (\<lambda>c. (0, c)),
      getnumber = bench_getnumber,
      double_quotient = (\<lambda>c p. if p = 0 then 0 else word_of_nat (c div unat p))\<rparr>"

text \<open>
  A steady signal of 800 Hz on the pin, with the timers at 16 MHz. The coarse window
  (prescaler 1:256) counts 3, the second window 800. The edges are 20000 ticks apart:
  for an edge at tick \<open>t\<close> of the 32-bit timer, \<open>IC1BUF\<close> delivers the low word
  and \<open>IC2BUF\<close> the high word. \<open>stamp\<close> puts the two words together again.
\<close>

definition capture_at :: "nat \<Rightarrow> uint16_t \<times> uint16_t" where
  "capture_at t = (word_of_nat t, word_of_nat (t div 65536))"

definition stamp :: "uint32_t \<Rightarrow> uint32_t \<Rightarrow> uint32_t" where
  "stamp lo hi = push_bit 16 hi + lo"

definition later_edges :: "nat list" where
  "later_edges = map ((*) 20000) [1..<801]"

definition steady_signal :: aux_signal where
  "steady_signal =
     \<lparr>windows = [(3, 0), (800, 0)], captures = capture_at 0 # map capture_at later_edges\<rparr>"

text \<open>
  An interactive session: the PWM runs at 25 Hz and 10 percent, programmed through
  \<open>bp_update_pwm\<close>; the PWM command is then entered with something after the
  command letter that is not a number, and the user answers the two prompts with
  \<open>1000\<close> and \<open>50\<close>, each followed by a line feed.
\<close>

definition interactive_session :: machine where
  "interactive_session =
     (bp_update_pwm bench 25 10 power_on)
       \<lparr>con := \<lparr>cmdbuf = (\<lambda>_. 0x20), cmdstart = 0, command_error = False,
                 keys = [49, 48, 48, 48, 10, 53, 48, 10], uart = []\<rparr>\<rparr>"



subsection \<open>The servo on-time as a function of the angle\<close>

text \<open>
  The value of \<open>(PWM_period * (PWM_pd / 3500)) + 62\<close> in \<open>servoset\<close> for an integer
  angle, truncated but not yet converted to \<open>unsigned int\<close>, and its values for the
  angles 0 to 180.
\<close>

definition servo_ticks :: "int \<Rightarrow> int" where
  "servo_ticks angle =
     float_trunc (float_add (float_mul (float_of_int 1250)
        (float_div (float_of_int angle) (float_of_int 3500))) (float_of_int 62))"

definition servo_table :: "int list" where
  "servo_table =
     [62, 62, 62, 63, 63, 63, 64, 64, 64, 65, 65, 65, 66, 66, 67, 67, 67, 68, 68, 68,
      69, 69, 69, 70, 70, 70, 71, 71, 72, 72, 72, 73, 73, 73, 74, 74, 74, 75, 75, 75,
      76, 76, 77, 77, 77, 78, 78, 78, 79, 79, 79, 80, 80, 80, 81, 81, 82, 82, 82, 83,
      83, 83, 84, 84, 84, 85, 85, 85, 86, 86, 87, 87, 87, 88, 88, 88, 89, 89, 89, 90,
      90, 90, 91, 91, 92, 92, 92, 93, 93, 93, 94, 94, 94, 95, 95, 95, 96, 96, 97, 97,
      97, 98, 98, 98, 99, 99, 99, 100, 100, 100, 101, 101, 102, 102, 102, 103, 103, 103, 104, 104,
      104, 105, 105, 105, 106, 106, 107, 107, 107, 108, 108, 108, 109, 109, 109, 110, 110, 110, 111, 111,
      112, 112, 112, 113, 113, 113, 114, 114, 114, 115, 115, 115, 116, 116, 117, 117, 117, 118, 118, 118,
      119, 119, 119, 120, 120, 120, 121, 121, 122, 122, 122, 123, 123, 123, 124, 124, 124, 125, 125, 125,
      126]"

text \<open>The test \<open>PWM_pd > 180\<close> of \<open>bp_servo_setup\<close> for an integer angle.\<close>

definition above_180 :: "int \<Rightarrow> bool" where
  "above_180 angle = float_less (float_of_int 180) (float_of_int angle)"

section \<open>Verification\<close>

subsection \<open>Prescaler tiers and PWM register values\<close>

lemma TCKPS_write:
  "TCKPS (write_bit TCKPS0_POSITION b0 (write_bit TCKPS1_POSITION b1 w)) =
     (if b1 then 2 else 0) + (if b0 then 1 else 0)"
  by (simp add: TCKPS_def write_bit_def TCKPS0_POSITION_def TCKPS1_POSITION_def bit_simps)

text \<open>
  Claim C1. For every frequency in (0, 4000), \<open>setup_prescaler_divisor\<close> returns
  divisor 62 and selects the 1:256 prescaler when the frequency is below 4, divisor 250
  and 1:64 from 4 up to 30, divisor 2000 and 1:8 from 31 up to 244, and divisor 16000
  and 1:1 from 245 on.
\<close>

theorem setup_prescaler_divisor_tiers:
  assumes "0 < unat frequency" and "unat frequency < 4000"
  shows "unat (fst (setup_prescaler_divisor frequency r)) =
           (if unat frequency < 4 then 62 else if unat frequency < 31 then 250
            else if unat frequency < 245 then 2000 else 16000)
       \<and> TCKPS (snd (setup_prescaler_divisor frequency r) T2CON) =
           (if unat frequency < 4 then 3 else if unat frequency < 31 then 2
            else if unat frequency < 245 then 1 else 0)"
  by (simp add: setup_prescaler_divisor_def word_less_nat_alt TCKPS_write ON_def OFF_def
      PWM_DIVISOR_PRESCALER_1_256_def PWM_DIVISOR_PRESCALER_1_64_def
      PWM_DIVISOR_PRESCALER_1_8_def PWM_DIVISOR_PRESCALER_1_1_def)

theorem setup_prescaler_divisor_tiers_witness:
  "\<forall>r. map (\<lambda>f. unat (fst (setup_prescaler_divisor f r))) [1, 3, 4, 30, 31, 244, 245, 3999]
         = [62, 62, 250, 250, 2000, 2000, 16000, 16000]
     \<and> map (\<lambda>f. TCKPS (snd (setup_prescaler_divisor f r) T2CON)) [1, 3, 4, 30, 31, 244, 245, 3999]
         = [3, 3, 2, 2, 1, 1, 0, 0]"
  using setup_prescaler_divisor_tiers [of 1] setup_prescaler_divisor_tiers [of 3]
    setup_prescaler_divisor_tiers [of 4] setup_prescaler_divisor_tiers [of 30]
    setup_prescaler_divisor_tiers [of 31] setup_prescaler_divisor_tiers [of 244]
    setup_prescaler_divisor_tiers [of 245] setup_prescaler_divisor_tiers [of 3999]
  by simp

lemma divisor_cases:
  "fst (setup_prescaler_divisor frequency r) =
     (if frequency < 4 then 62 else if frequency < 31 then 250
      else if frequency < 245 then 2000 else 16000)"
  by (simp add: setup_prescaler_divisor_def
      PWM_DIVISOR_PRESCALER_1_256_def PWM_DIVISOR_PRESCALER_1_64_def
      PWM_DIVISOR_PRESCALER_1_8_def PWM_DIVISOR_PRESCALER_1_1_def)

lemma bp_update_pwm_PR2:
  "frequency \<noteq> 0 \<Longrightarrow> regs (bp_update_pwm P frequency duty_cycle m) PR2 =
     fst (setup_prescaler_divisor frequency (regs m)) div frequency - 1"
  by (simp add: bp_update_pwm_def Let_def split_beta divisor_cases)

lemma bp_update_pwm_OC5R:
  "frequency \<noteq> 0 \<Longrightarrow> regs (bp_update_pwm P frequency duty_cycle m) OC5R =
     (regs (bp_update_pwm P frequency duty_cycle m) PR2 * duty_cycle) div 100"
  by (simp add: bp_update_pwm_def Let_def split_beta)

lemma bp_update_pwm_OC5RS:
  "frequency \<noteq> 0 \<Longrightarrow> regs (bp_update_pwm P frequency duty_cycle m) OC5RS =
     regs (bp_update_pwm P frequency duty_cycle m) OC5R"
  by (simp add: bp_update_pwm_def Let_def split_beta)

text \<open>The period stays small: between 3 and 64 for every frequency in range.\<close>

lemma quotient_bounds:
  assumes "0 < unat frequency" and "unat frequency < 4000"
  shows "4 \<le> unat (fst (setup_prescaler_divisor frequency r)) div unat frequency"
    and "unat (fst (setup_prescaler_divisor frequency r)) div unat frequency \<le> 65"
proof -
  let ?f = "unat frequency"
  consider "?f < 4" | "4 \<le> ?f" "?f < 31" | "31 \<le> ?f" "?f < 245" | "245 \<le> ?f"
    by linarith
  then have "4 \<le> unat (fst (setup_prescaler_divisor frequency r)) div ?f
     \<and> unat (fst (setup_prescaler_divisor frequency r)) div ?f \<le> 65"
  proof cases
    case 1
    then have d: "unat (fst (setup_prescaler_divisor frequency r)) = 62"
      by (simp add: divisor_cases word_less_nat_alt)
    have "4 * ?f \<le> 62" using 1 by simp
    then have "4 \<le> 62 div ?f" using assms(1) by (simp add: less_eq_div_iff_mult_less_eq)
    moreover have "62 div ?f \<le> 62" by (rule div_le_dividend)
    ultimately show ?thesis unfolding d by linarith
  next
    case 2
    then have d: "unat (fst (setup_prescaler_divisor frequency r)) = 250"
      by (simp add: divisor_cases word_less_nat_alt)
    have "4 * ?f \<le> 250" using 2 by simp
    then have "4 \<le> 250 div ?f" using assms(1) by (simp add: less_eq_div_iff_mult_less_eq)
    moreover have "250 div ?f \<le> 250 div 4" using 2 by (intro div_le_mono2) simp_all
    ultimately show ?thesis unfolding d by linarith
  next
    case 3
    then have d: "unat (fst (setup_prescaler_divisor frequency r)) = 2000"
      by (simp add: divisor_cases word_less_nat_alt)
    have "4 * ?f \<le> 2000" using 3 by simp
    then have "4 \<le> 2000 div ?f" using assms(1) by (simp add: less_eq_div_iff_mult_less_eq)
    moreover have "2000 div ?f \<le> 2000 div 31" using 3 by (intro div_le_mono2) simp_all
    ultimately show ?thesis unfolding d by linarith
  next
    case 4
    then have d: "unat (fst (setup_prescaler_divisor frequency r)) = 16000"
      by (simp add: divisor_cases word_less_nat_alt)
    have "4 * ?f \<le> 16000" using assms(2) by simp
    then have "4 \<le> 16000 div ?f" using assms(1) by (simp add: less_eq_div_iff_mult_less_eq)
    moreover have "16000 div ?f \<le> 16000 div 245" using 4 by (intro div_le_mono2) simp_all
    ultimately show ?thesis unfolding d by linarith
  qed
  then show "4 \<le> unat (fst (setup_prescaler_divisor frequency r)) div unat frequency"
    and "unat (fst (setup_prescaler_divisor frequency r)) div unat frequency \<le> 65"
    by simp_all
qed


text \<open>
  Claim C2. For every frequency in (0, 4000) and duty cycle in [0, 99], the period
  register \<open>PR2\<close> receives \<open>divisor / frequency - 1\<close> and the compare registers
  \<open>OC5R\<close> and \<open>OC5RS\<close> receive \<open>period * duty_cycle / 100\<close>, both as integer
  quotients: no 16-bit operation wraps in that range. At 1000 Hz and 50 percent the
  divisor is 16000, the period 15 and the on-time 7.
\<close>

theorem bp_update_pwm_period_and_on_time:
  assumes "0 < unat frequency" and "unat frequency < 4000" and "unat duty_cycle \<le> 99"
  shows "uint (regs (bp_update_pwm P frequency duty_cycle m) PR2) =
           uint (fst (setup_prescaler_divisor frequency (regs m))) div uint frequency - 1
       \<and> uint (regs (bp_update_pwm P frequency duty_cycle m) OC5R) =
           (uint (regs (bp_update_pwm P frequency duty_cycle m) PR2) * uint duty_cycle) div 100
       \<and> regs (bp_update_pwm P frequency duty_cycle m) OC5RS =
           regs (bp_update_pwm P frequency duty_cycle m) OC5R"
proof -
  let ?m' = "bp_update_pwm P frequency duty_cycle m"
  let ?q = "unat (fst (setup_prescaler_divisor frequency (regs m))) div unat frequency"
  have nz: "frequency \<noteq> 0" using assms(1) by (auto simp: unat_eq_0)
  have q4: "4 \<le> ?q" and q65: "?q \<le> 65" using quotient_bounds [OF assms(1,2)] by simp_all
  have "(1::16 word) \<le> fst (setup_prescaler_divisor frequency (regs m)) div frequency"
    using q4 by (simp add: word_le_nat_alt unat_div)
  then have period: "unat (regs ?m' PR2) = ?q - 1"
    by (simp add: bp_update_pwm_PR2 [OF nz] unat_sub unat_div)
  have "unat (regs ?m' PR2) * unat duty_cycle \<le> 64 * 99"
    using period q65 assms(3) by (intro mult_le_mono) simp_all
  then have "unat (regs ?m' PR2) * unat duty_cycle < 2 ^ LENGTH(16)" by simp
  then have "unat (regs ?m' PR2 * duty_cycle) = unat (regs ?m' PR2) * unat duty_cycle"
    by (simp only: unat_mult_lem)
  then have "unat (regs ?m' OC5R) = (unat (regs ?m' PR2) * unat duty_cycle) div 100"
    by (simp add: bp_update_pwm_OC5R [OF nz] unat_div)
  then have "int (unat (regs ?m' OC5R)) =
      (int (unat (regs ?m' PR2)) * int (unat duty_cycle)) div 100"
    by (simp add: zdiv_int)
  then have on_time: "uint (regs ?m' OC5R) = (uint (regs ?m' PR2) * uint duty_cycle) div 100"
    by simp
  have "int (unat (regs ?m' PR2)) = int ?q - 1" using period q4 by simp
  then have "int (unat (regs ?m' PR2)) =
      int (unat (fst (setup_prescaler_divisor frequency (regs m)))) div int (unat frequency) - 1"
    by (simp add: zdiv_int)
  then have "uint (regs ?m' PR2) =
      uint (fst (setup_prescaler_divisor frequency (regs m))) div uint frequency - 1"
    by simp
  with on_time bp_update_pwm_OC5RS [OF nz] show ?thesis by simp
qed

theorem bp_update_pwm_period_and_on_time_witness:
  "\<forall>P m. uint (fst (setup_prescaler_divisor 1000 (regs m))) = 16000
       \<and> uint (regs (bp_update_pwm P 1000 50 m) PR2) = 15
       \<and> uint (regs (bp_update_pwm P 1000 50 m) OC5R) = 7
       \<and> uint (regs (bp_update_pwm P 1000 50 m) OC5RS) = 7"
proof (intro allI)
  fix P :: platform and m :: machine
  have d: "uint (fst (setup_prescaler_divisor 1000 (regs m))) = 16000"
    by (simp add: divisor_cases)
  from bp_update_pwm_period_and_on_time [of 1000 50 P m] d
  show "uint (fst (setup_prescaler_divisor 1000 (regs m))) = 16000
       \<and> uint (regs (bp_update_pwm P 1000 50 m) PR2) = 15
       \<and> uint (regs (bp_update_pwm P 1000 50 m) OC5R) = 7
       \<and> uint (regs (bp_update_pwm P 1000 50 m) OC5RS) = 7"
    by simp
qed

text \<open>
  Claim C3. After any PWM configuration with a frequency in (0, 4000), calling
  \<open>bp_update_pwm\<close> with frequency 0 leaves the mode at \<open>AUX_MODE_IO\<close> and sets the
  pin-routing register of the AUX pin to zero.
\<close>

theorem pwm_disable_returns_to_io:
  assumes "0 < unat f" and "unat f < 4000"
  shows "mode (state (bp_update_pwm P f d m)) = AUX_MODE_PWM
       \<and> regs (bp_update_pwm P f d m) AUXPIN_RPOUT = OC5_IO P
       \<and> mode (state (bp_update_pwm P 0 d' (bp_update_pwm P f d m))) = AUX_MODE_IO
       \<and> regs (bp_update_pwm P 0 d' (bp_update_pwm P f d m)) AUXPIN_RPOUT = 0
       \<and> pwm_frequency (state (bp_update_pwm P 0 d' (bp_update_pwm P f d m))) = 0"
proof -
  have nz: "f \<noteq> 0" using assms(1) by (auto simp: unat_eq_0)
  then show ?thesis by (simp add: bp_update_pwm_def Let_def split_beta)
qed

theorem pwm_disable_returns_to_io_witness:
  "\<forall>P m. mode (state (bp_update_pwm P 1000 50 m)) = AUX_MODE_PWM
       \<and> regs (bp_update_pwm P 1000 50 m) AUXPIN_RPOUT = OC5_IO P
       \<and> mode (state (bp_update_pwm P 0 50 (bp_update_pwm P 1000 50 m))) = AUX_MODE_IO
       \<and> regs (bp_update_pwm P 0 50 (bp_update_pwm P 1000 50 m)) AUXPIN_RPOUT = 0"
  using pwm_disable_returns_to_io [of 1000 _ 50 _ 50] by simp



subsection \<open>The frequency counter\<close>

text \<open>
  Claim C5. When \<open>bp_frequency_counter_setup\<close> is called while the mode is
  \<open>AUX_MODE_PWM\<close>, it sends the message \<open>BPMSG1037\<close> and returns: the state, every
  register and the signal bookkeeping are as before, and nothing else is sent.
\<close>

theorem frequency_counter_refuses_while_pwm:
  assumes "mode (state m) = AUX_MODE_PWM"
  shows "bp_frequency_counter_setup P m =
           Inr (m\<lparr>con := (con m)\<lparr>uart := uart (con m) @ [Message BPMSG1037]\<rparr>\<rparr>)"
  using assms by (simp add: bp_frequency_counter_setup_def emit_def)

theorem frequency_counter_refuses_while_pwm_witness:
  "\<forall>P m. mode (state (bp_update_pwm P 1000 50 m)) = AUX_MODE_PWM
     \<and> (\<exists>m'. bp_frequency_counter_setup P (bp_update_pwm P 1000 50 m) = Inr m'
           \<and> state m' = state (bp_update_pwm P 1000 50 m)
           \<and> regs m' = regs (bp_update_pwm P 1000 50 m)
           \<and> pin m' = pin (bp_update_pwm P 1000 50 m)
           \<and> sent (bp_update_pwm P 1000 50 m) m' = [Message BPMSG1037])"
proof (intro allI)
  fix P m
  have pwm: "mode (state (bp_update_pwm P 1000 50 m)) = AUX_MODE_PWM"
    by (simp add: bp_update_pwm_def Let_def split_beta)
  from frequency_counter_refuses_while_pwm [OF pwm, of P] pwm
  show "mode (state (bp_update_pwm P 1000 50 m)) = AUX_MODE_PWM
     \<and> (\<exists>m'. bp_frequency_counter_setup P (bp_update_pwm P 1000 50 m) = Inr m'
           \<and> state m' = state (bp_update_pwm P 1000 50 m)
           \<and> regs m' = regs (bp_update_pwm P 1000 50 m)
           \<and> pin m' = pin (bp_update_pwm P 1000 50 m)
           \<and> sent (bp_update_pwm P 1000 50 m) m' = [Message BPMSG1037])"
    by (simp add: sent_def)
qed

lemma uint_ucast_32_64: "uint (ucast (c :: uint32_t) :: uint64_t) = uint c"
  by (simp add: uint_up_ucast is_up)

lemma ucast_32_64_less: "(ucast (c :: uint32_t) :: uint64_t) > 0x3fff \<longleftrightarrow> c > 0x3fff"
  by (simp add: word_less_def uint_ucast_32_64)

lemma uint_times_256: "uint ((ucast (c :: uint32_t) :: uint64_t) * 256) = uint c * 256"
proof -
  have "uint c < 2 ^ 32" using uint_bounded [of c] by simp
  then have "uint (ucast c :: uint64_t) * uint (256 :: uint64_t) < 2 ^ LENGTH(64)"
    by (simp add: uint_ucast_32_64)
  then have "uint ((ucast c :: uint64_t) * 256) = uint (ucast c :: uint64_t) * uint (256 :: uint64_t)"
    by (simp only: uint_mult_lem)
  then show ?thesis by (simp add: uint_ucast_32_64)
qed

lemma TCKPS_TON [simp]: "TCKPS (write_bit TON_POSITION b w) = TCKPS w"
  by (simp add: TCKPS_def write_bit_def TON_POSITION_def TCKPS0_POSITION_def TCKPS1_POSITION_def bit_simps)

lemma TCKPS_literals [simp]: "TCKPS 0b111010 = 3" "TCKPS 0b001010 = 0"
  by (simp_all add: TCKPS_def TCKPS0_POSITION_def TCKPS1_POSITION_def)

lemma poll_Cons:
  "windows (pin m) = w # later \<Longrightarrow>
   poll_frequency_counter_value m =
     Inr (edge_count w,
          m\<lparr>regs := (regs m)(PR3 := 0xFFFF, PR2 := 0xFFFF, TMR5HLD := 0, TMR4 := 0,
                     PR5 := 0x00F4, PR4 := 0x2400, IFS1_T5IF := 1, TMR2 := fst w, TMR3HLD := snd w,
                     T2CON := write_bit TON_POSITION OFF (write_bit TON_POSITION ON (regs m T2CON)),
                     T4CON := write_bit TON_POSITION OFF (write_bit TON_POSITION ON
                                (write_bit T32_POSITION YES (regs m T4CON)))),
             pin := (pin m)\<lparr>windows := later\<rparr>\<rparr>)"
  by (cases w) (auto simp: poll_frequency_counter_value_def edge_count_def Let_def fun_eq_iff)

lemma poll_Nil: "windows (pin m) = [] \<Longrightarrow> poll_frequency_counter_value m = Inl Stalled"
  by (simp add: poll_frequency_counter_value_def Let_def)

lemma autorange_cases:
  assumes "windows (pin m) = w1 # later"
  shows "(0x3FFF < edge_count w1 \<longrightarrow>
           (\<exists>m'. count_edges_autorange P m = Inr (ucast (edge_count w1) * 256, m')
               \<and> uint (ucast (edge_count w1) * 256 :: uint64_t) = uint (edge_count w1) * 256
               \<and> windows (pin m') = later \<and> TCKPS (regs m' T2CON) = 3 \<and> sent m m' = []))
       \<and> (edge_count w1 \<le> 0x3FFF \<longrightarrow>
           (case later of
              [] \<Rightarrow> count_edges_autorange P m = Inl Stalled
            | w2 # rest \<Rightarrow>
               (\<exists>m'. count_edges_autorange P m = Inr (ucast (edge_count w2), m')
                  \<and> windows (pin m') = rest \<and> TCKPS (regs m' T2CON) = 0
                  \<and> sent m m' = [Message BPMSG1245])))"
proof (intro conjI impI)
  assume "0x3FFF < edge_count w1"
  then show "\<exists>m'. count_edges_autorange P m = Inr (ucast (edge_count w1) * 256, m')
               \<and> uint (ucast (edge_count w1) * 256 :: uint64_t) = uint (edge_count w1) * 256
               \<and> windows (pin m') = later \<and> TCKPS (regs m' T2CON) = 3 \<and> sent m m' = []"
    using assms
    by (simp add: count_edges_autorange_def poll_Cons ucast_32_64_less uint_times_256 sent_def)
next
  assume "edge_count w1 \<le> 0x3FFF"
  then have small: "\<not> 0x3FFF < edge_count w1" by simp
  show "case later of
              [] \<Rightarrow> count_edges_autorange P m = Inl Stalled
            | w2 # rest \<Rightarrow>
               (\<exists>m'. count_edges_autorange P m = Inr (ucast (edge_count w2), m')
                  \<and> windows (pin m') = rest \<and> TCKPS (regs m' T2CON) = 0
                  \<and> sent m m' = [Message BPMSG1245])"
  proof (cases later)
    case Nil
    with assms small show ?thesis
      by (simp add: count_edges_autorange_def poll_Cons poll_Nil ucast_32_64_less)
  next
    case (Cons w2 rest)
    with assms small show ?thesis
      by (simp add: count_edges_autorange_def poll_Cons ucast_32_64_less sent_def emit_def)
  qed
qed


lemma length_digits: "length digits = 10"
  by (simp add: digits_def)

lemma point_not_digit: "CHR ''.'' \<notin> set digits"
  by (simp add: digits_def)

lemma zero_digit: "CHR ''0'' \<in> set digits"
  by (simp add: digits_def)

lemma digit_char_is_digit: "d < 10 \<Longrightarrow> digit_char d \<in> set digits"
  unfolding digit_char_def by (rule nth_mem) (simp add: length_digits)

lemma decimal_digits: "set (decimal n) \<subseteq> set digits"
proof (induction n rule: decimal.induct)
  case (1 n)
  show ?case
  proof (cases "n < 10")
    case True
    then show ?thesis
      using digit_char_is_digit [of n] by (subst decimal.simps) simp
  next
    case False
    have "n mod 10 < 10" by simp
    from digit_char_is_digit [OF this] 1 [OF False] False show ?thesis
      by (subst decimal.simps) simp
  qed
qed

lemma three_digits_digits: "set (three_digits n) \<subseteq> set digits"
proof -
  have "n div 100 mod 10 < 10" "n div 10 mod 10 < 10" "n mod 10 < 10" by simp_all
  then show ?thesis
    using digit_char_is_digit [of "n div 100 mod 10"] digit_char_is_digit [of "n div 10 mod 10"]
      digit_char_is_digit [of "n mod 10"]
    by (simp add: three_digits_def)
qed

lemma decimal_friendly_chars:
  "set (decimal_friendly n) \<subseteq> insert CHR '','' (set digits)"
proof (induction n rule: decimal_friendly.induct)
  case (1 n)
  show ?case
  proof (cases "n < 1000")
    case True
    then show ?thesis using decimal_digits [of n] by (subst decimal_friendly.simps) auto
  next
    case False
    from 1 [OF False] three_digits_digits [of "n mod 1000"] False show ?thesis
      by (subst decimal_friendly.simps) auto
  qed
qed

lemma decimal_friendly_no_point: "CHR ''.'' \<notin> set (decimal_friendly n)"
  using decimal_friendly_chars [of n] point_not_digit by auto

lemma length_decimal_step: "10 \<le> n \<Longrightarrow> length (decimal n) = Suc (length (decimal (n div 10)))"
  by (subst decimal.simps) simp

lemma length_decimal_1: "n < 10 \<Longrightarrow> length (decimal n) = 1"
  by (subst decimal.simps) simp

lemma length_decimal_2: "10 \<le> n \<Longrightarrow> n < 100 \<Longrightarrow> length (decimal n) = 2"
proof -
  assume a: "10 \<le> n" "n < 100"
  then have "n div 10 < 10" by presburger
  with a length_decimal_step [of n] length_decimal_1 [of "n div 10"] show ?thesis by linarith
qed

lemma length_decimal_3: "100 \<le> n \<Longrightarrow> n < 1000 \<Longrightarrow> length (decimal n) = 3"
proof -
  assume a: "100 \<le> n" "n < 1000"
  then have "10 \<le> n div 10" "n div 10 < 100" by presburger+
  with a length_decimal_step [of n] length_decimal_2 [of "n div 10"] show ?thesis by linarith
qed

lemma length_decimal_4: "1000 \<le> n \<Longrightarrow> n < 10000 \<Longrightarrow> length (decimal n) = 4"
proof -
  assume a: "1000 \<le> n" "n < 10000"
  then have "100 \<le> n div 10" "n div 10 < 1000" by presburger+
  with a length_decimal_step [of n] length_decimal_3 [of "n div 10"] show ?thesis by linarith
qed

lemma length_decimal_5: "10000 \<le> n \<Longrightarrow> n < 100000 \<Longrightarrow> length (decimal n) = 5"
proof -
  assume a: "10000 \<le> n" "n < 100000"
  then have "1000 \<le> n div 10" "n div 10 < 10000" by presburger+
  with a length_decimal_step [of n] length_decimal_4 [of "n div 10"] show ?thesis by linarith
qed

text \<open>Zero padding to a fixed width.\<close>

lemma is_digit_zero [simp]: "is_digit (UART1TX CHR ''0'')"
  by (simp add: is_digit_def zero_digit)

lemma is_digit_Message [simp]: "\<not> is_digit (Message x)"
  by (simp add: is_digit_def)

lemma is_digit_decimal: "x \<in> set (map UART1TX (decimal n)) \<Longrightarrow> is_digit x"
  using decimal_digits [of n] by (auto simp: is_digit_def)

lemma no_point_friendly: "UART1TX CHR ''.'' \<notin> set (bp_write_dec_dword_friendly v)"
  using decimal_friendly_no_point by (auto simp: bp_write_dec_dword_friendly_def)

lemma fraction_digits_shape:
  assumes "UART1TX CHR ''.'' \<notin> set pre" and "\<forall>x\<in>set ds. is_digit x" and "\<not> is_digit y"
  shows "fraction_digits (pre @ [UART1TX CHR ''.''] @ ds @ y # rest) = ds"
proof -
  have "dropWhile (\<lambda>x. x \<noteq> UART1TX CHR ''.'') (pre @ [UART1TX CHR ''.''] @ ds @ y # rest)
      = [UART1TX CHR ''.''] @ ds @ y # rest"
    using assms(1) by (subst dropWhile_append2) auto
  moreover have "takeWhile is_digit (ds @ y # rest) = ds"
    using assms(2,3) by (simp add: takeWhile_append2)
  ultimately show ?thesis by (simp add: fraction_digits_def)
qed

lemma length_padded_5:
  assumes "n < 100000"
  shows "length ((if n < 10000 then [UART1TX CHR ''0''] else [])
               @ (if n < 1000 then [UART1TX CHR ''0''] else [])
               @ (if n < 100 then [UART1TX CHR ''0''] else [])
               @ (if n < 10 then [UART1TX CHR ''0''] else [])
               @ map UART1TX (decimal n)) = 5"
proof -
  consider "n < 10" | "10 \<le> n" "n < 100" | "100 \<le> n" "n < 1000"
    | "1000 \<le> n" "n < 10000" | "10000 \<le> n" "n < 100000"
    using assms by linarith
  then show ?thesis
  proof cases
    case 1 then show ?thesis by (simp add: length_decimal_1)
  next
    case 2 then show ?thesis by (simp add: length_decimal_2)
  next
    case 3 then show ?thesis by (simp add: length_decimal_3)
  next
    case 4 then show ?thesis by (simp add: length_decimal_4)
  next
    case 5 then show ?thesis by (simp add: length_decimal_5)
  qed
qed

lemma length_padded_4:
  assumes "n < 10000"
  shows "length ((if n < 1000 then [UART1TX CHR ''0''] else [])
               @ (if n < 100 then [UART1TX CHR ''0''] else [])
               @ (if n < 10 then [UART1TX CHR ''0''] else [])
               @ map UART1TX (decimal n)) = 4"
proof -
  consider "n < 10" | "10 \<le> n" "n < 100" | "100 \<le> n" "n < 1000" | "1000 \<le> n" "n < 10000"
    using assms by linarith
  then show ?thesis
  proof cases
    case 1 then show ?thesis by (simp add: length_decimal_1)
  next
    case 2 then show ?thesis by (simp add: length_decimal_2)
  next
    case 3 then show ?thesis by (simp add: length_decimal_3)
  next
    case 4 then show ?thesis by (simp add: length_decimal_4)
  qed
qed

lemma length_padded_3:
  assumes "n < 1000"
  shows "length ((if n < 100 then [UART1TX CHR ''0''] else [])
               @ (if n < 10 then [UART1TX CHR ''0''] else [])
               @ map UART1TX (decimal n)) = 3"
proof -
  consider "n < 10" | "10 \<le> n" "n < 100" | "100 \<le> n" "n < 1000"
    using assms by linarith
  then show ?thesis
  proof cases
    case 1 then show ?thesis by (simp add: length_decimal_1)
  next
    case 2 then show ?thesis by (simp add: length_decimal_2)
  next
    case 3 then show ?thesis by (simp add: length_decimal_3)
  qed
qed

lemma length_padded_2:
  assumes "n < 100"
  shows "length ((if n < 10 then [UART1TX CHR ''0''] else []) @ map UART1TX (decimal n)) = 2"
proof (cases "n < 10")
  case True then show ?thesis by (simp add: length_decimal_1)
next
  case False with assms show ?thesis by (simp add: length_decimal_2)
qed

text \<open>The remainder modulo a power of ten, and its conversion to the narrower argument.\<close>

lemma unat_mod_numeral:
  "unat ((f :: uint64_t) mod numeral k) = unat f mod unat (numeral k :: uint64_t)"
  by (rule unat_mod)

lemma less_numeral_64: "((g :: uint64_t) < numeral k) = (unat g < unat (numeral k :: uint64_t))"
  by (rule word_less_nat_alt)

lemma unat_ucast_64_32: "unat g < 4294967296 \<Longrightarrow> unat (ucast (g :: uint64_t) :: uint32_t) = unat g"
  by (simp add: unsigned_ucast_eq take_bit_nat_eq_self)

lemma unat_ucast_64_16: "unat g < 65536 \<Longrightarrow> unat (ucast (g :: uint64_t) :: uint16_t) = unat g"
  by (simp add: unsigned_ucast_eq take_bit_nat_eq_self)

lemma unat_ucast_64_8: "unat g < 256 \<Longrightarrow> unat (ucast (g :: uint64_t) :: uint8_t) = unat g"
  by (simp add: unsigned_ucast_eq take_bit_nat_eq_self)

lemma tier_shape:
  assumes "UART1TX CHR ''.'' \<notin> set pre" and "\<forall>x\<in>set ds. is_digit x"
  shows "fraction_digits
           (pre @ (bp_write_dec_dword_friendly v @ [UART1TX CHR ''.''] @ ds)
              @ [Message MSG_PWM_HZ_MARKER]) = ds"
  using fraction_digits_shape [of "pre @ bp_write_dec_dword_friendly v" ds
      "Message MSG_PWM_HZ_MARKER" "[]"] assms no_point_friendly [of v]
  by simp

lemma fraction_tier_5:
  fixes f :: uint64_t
  assumes "UART1TX CHR ''.'' \<notin> set pre"
  shows "length (fraction_digits
           (pre @ (let g = f mod 100000
                   in bp_write_dec_dword_friendly (ucast (f div 100000)) @ [UART1TX CHR ''.'']
                      @ (if g < 10000 then [UART1TX CHR ''0''] else [])
                      @ (if g < 1000 then [UART1TX CHR ''0''] else [])
                      @ (if g < 100 then [UART1TX CHR ''0''] else [])
                      @ (if g < 10 then [UART1TX CHR ''0''] else [])
                      @ bp_write_dec_dword (ucast g))
              @ [Message MSG_PWM_HZ_MARKER])) = 5"
proof -
  let ?n = "unat (f mod 100000)"
  let ?ds = "(if ?n < 10000 then [UART1TX CHR ''0''] else [])
               @ (if ?n < 1000 then [UART1TX CHR ''0''] else [])
               @ (if ?n < 100 then [UART1TX CHR ''0''] else [])
               @ (if ?n < 10 then [UART1TX CHR ''0''] else [])
               @ map UART1TX (decimal ?n)"
  have n: "?n < 100000" by (simp add: unat_mod_numeral)
  then have u: "unat (ucast (f mod 100000) :: uint32_t) = ?n"
    by (intro unat_ucast_64_32) simp
  have dig: "\<forall>x\<in>set ?ds. is_digit x"
    using is_digit_decimal [of _ ?n] by (auto split: if_splits)
  have "length ?ds = 5" using n by (rule length_padded_5)
  with tier_shape [OF assms dig, of "ucast (f div 100000)"] show ?thesis
    by (simp add: Let_def less_numeral_64 bp_write_dec_dword_def u)
qed

lemma fraction_tier_4:
  fixes f :: uint64_t
  assumes "UART1TX CHR ''.'' \<notin> set pre"
  shows "length (fraction_digits
           (pre @ (let g = f mod 10000
                   in bp_write_dec_dword_friendly (ucast (f div 10000)) @ [UART1TX CHR ''.'']
                      @ (if g < 1000 then [UART1TX CHR ''0''] else [])
                      @ (if g < 100 then [UART1TX CHR ''0''] else [])
                      @ (if g < 10 then [UART1TX CHR ''0''] else [])
                      @ bp_write_dec_word (ucast g))
              @ [Message MSG_PWM_HZ_MARKER])) = 4"
proof -
  let ?n = "unat (f mod 10000)"
  let ?ds = "(if ?n < 1000 then [UART1TX CHR ''0''] else [])
               @ (if ?n < 100 then [UART1TX CHR ''0''] else [])
               @ (if ?n < 10 then [UART1TX CHR ''0''] else [])
               @ map UART1TX (decimal ?n)"
  have n: "?n < 10000" by (simp add: unat_mod_numeral)
  then have u: "unat (ucast (f mod 10000) :: uint16_t) = ?n"
    by (intro unat_ucast_64_16) simp
  have dig: "\<forall>x\<in>set ?ds. is_digit x"
    using is_digit_decimal [of _ ?n] by (auto split: if_splits)
  have "length ?ds = 4" using n by (rule length_padded_4)
  with tier_shape [OF assms dig, of "ucast (f div 10000)"] show ?thesis
    by (simp add: Let_def less_numeral_64 bp_write_dec_word_def u)
qed

lemma fraction_tier_3:
  fixes f :: uint64_t
  assumes "UART1TX CHR ''.'' \<notin> set pre"
  shows "length (fraction_digits
           (pre @ (let g = f mod 1000
                   in bp_write_dec_dword_friendly (ucast (f div 1000)) @ [UART1TX CHR ''.'']
                      @ (if g < 100 then [UART1TX CHR ''0''] else [])
                      @ (if g < 10 then [UART1TX CHR ''0''] else [])
                      @ bp_write_dec_word (ucast g))
              @ [Message MSG_PWM_HZ_MARKER])) = 3"
proof -
  let ?n = "unat (f mod 1000)"
  let ?ds = "(if ?n < 100 then [UART1TX CHR ''0''] else [])
               @ (if ?n < 10 then [UART1TX CHR ''0''] else [])
               @ map UART1TX (decimal ?n)"
  have n: "?n < 1000" by (simp add: unat_mod_numeral)
  then have u: "unat (ucast (f mod 1000) :: uint16_t) = ?n"
    by (intro unat_ucast_64_16) simp
  have dig: "\<forall>x\<in>set ?ds. is_digit x"
    using is_digit_decimal [of _ ?n] by (auto split: if_splits)
  have "length ?ds = 3" using n by (rule length_padded_3)
  with tier_shape [OF assms dig, of "ucast (f div 1000)"] show ?thesis
    by (simp add: Let_def less_numeral_64 bp_write_dec_word_def u)
qed

lemma fraction_tier_2:
  fixes f :: uint64_t
  assumes "UART1TX CHR ''.'' \<notin> set pre"
  shows "length (fraction_digits
           (pre @ (let g = f mod 100
                   in bp_write_dec_dword_friendly (ucast (f div 100)) @ [UART1TX CHR ''.'']
                      @ (if g < 10 then [UART1TX CHR ''0''] else [])
                      @ bp_write_dec_byte (ucast g))
              @ [Message MSG_PWM_HZ_MARKER])) = 2"
proof -
  let ?n = "unat (f mod 100)"
  let ?ds = "(if ?n < 10 then [UART1TX CHR ''0''] else []) @ map UART1TX (decimal ?n)"
  have n: "?n < 100" by (simp add: unat_mod_numeral)
  then have u: "unat (ucast (f mod 100) :: uint8_t) = ?n"
    by (intro unat_ucast_64_8) simp
  have dig: "\<forall>x\<in>set ?ds. is_digit x"
    using is_digit_decimal [of _ ?n] by (auto split: if_splits)
  have "length ?ds = 2" using n by (rule length_padded_2)
  with tier_shape [OF assms dig, of "ucast (f div 100)"] show ?thesis
    by (simp add: Let_def less_numeral_64 bp_write_dec_byte_def u)
qed

lemma fraction_tier_1:
  fixes f :: uint64_t
  assumes "UART1TX CHR ''.'' \<notin> set pre"
  shows "length (fraction_digits
           (pre @ (let g = f mod 10
                   in bp_write_dec_dword_friendly (ucast (f div 10)) @ [UART1TX CHR ''.'']
                      @ bp_write_dec_byte (ucast g))
              @ [Message MSG_PWM_HZ_MARKER])) = 1"
proof -
  let ?n = "unat (f mod 10)"
  let ?ds = "map UART1TX (decimal ?n)"
  have n: "?n < 10" by (simp add: unat_mod_numeral)
  then have u: "unat (ucast (f mod 10) :: uint8_t) = ?n"
    by (intro unat_ucast_64_8) simp
  have dig: "\<forall>x\<in>set ?ds. is_digit x"
    using is_digit_decimal [of _ ?n] by auto
  have "length ?ds = 1" using n by (simp add: length_decimal_1)
  with tier_shape [OF assms dig, of "ucast (f div 10)"] show ?thesis
    by (simp add: Let_def bp_write_dec_byte_def u)
qed

lemma fraction_digits_period:
  assumes "UART1TX CHR ''.'' \<notin> set pre"
  shows "length (fraction_digits
           (pre @ write_period_frequency P p @ [Message MSG_PWM_HZ_MARKER])) =
         (if 400000 < unat p then 5 else if 126491 < unat p then 4
          else if 40000 < unat p then 3 else if 12649 < unat p then 2 else 1)"
proof -
  have t5: "(400000 < p) = (400000 < unat p)" and t4: "(126491 < p) = (126491 < unat p)"
    and t3: "(40000 < p) = (40000 < unat p)" and t2: "(12649 < p) = (12649 < unat p)"
    by (simp_all add: word_less_nat_alt)
  consider (a) "400000 < unat p" | (b) "\<not> 400000 < unat p" "126491 < unat p"
    | (c) "\<not> 126491 < unat p" "40000 < unat p" | (d) "\<not> 40000 < unat p" "12649 < unat p"
    | (e) "\<not> 12649 < unat p"
    by linarith
  then show ?thesis
  proof cases
    case a
    then show ?thesis
      by (simp only: write_period_frequency_def t5 if_True Let_def
          fraction_tier_5 [OF assms, unfolded Let_def])
  next
    case b
    then show ?thesis
      by (simp only: write_period_frequency_def t5 t4 if_True if_False Let_def
          fraction_tier_4 [OF assms, unfolded Let_def])
  next
    case c
    then have "\<not> 400000 < unat p" by linarith
    with c show ?thesis
      by (simp only: write_period_frequency_def t5 t4 t3 if_True if_False Let_def
          fraction_tier_3 [OF assms, unfolded Let_def])
  next
    case d
    then have "\<not> 400000 < unat p" "\<not> 126491 < unat p" by linarith+
    with d show ?thesis
      by (simp only: write_period_frequency_def t5 t4 t3 t2 if_True if_False Let_def
          fraction_tier_2 [OF assms, unfolded Let_def])
  next
    case e
    then have "\<not> 400000 < unat p" "\<not> 126491 < unat p" "\<not> 40000 < unat p" by linarith+
    with e show ?thesis
      by (simp only: write_period_frequency_def t5 t4 t3 t2 if_True if_False Let_def
          fraction_tier_1 [OF assms, unfolded Let_def])
  qed
qed

lemma poll_frame:
  assumes "poll_frequency_counter_value m = Inr (c, m')"
  shows "con m' = con m" and "state m' = state m"
  using assms
  by (auto simp: poll_frequency_counter_value_def Let_def split: list.splits prod.splits)

lemma count_edges_frame:
  assumes "count_edges_autorange P m = Inr (f, m1)"
  shows "state m1 = state m
    \<and> (uart (con m1) = uart (con m) \<or> uart (con m1) = uart (con m) @ [Message BPMSG1245])"
proof -
  let ?m0 = "m\<lparr>regs := (regs m)(T4CON := 0, T2CON := 0, AUXPIN_DIR := 1,
                        RPINR3_T2CKR := AUXPIN_RPIN P, T2CON := 0b111010)\<rparr>"
  obtain c ma where first: "poll_frequency_counter_value ?m0 = Inr (c, ma)"
    using assms by (auto simp: count_edges_autorange_def Let_def split: sum.splits)
  note fa = poll_frame [OF first]
  show ?thesis
  proof (cases "(ucast c :: uint64_t) > 0x3fff")
    case True
    with assms first have "m1 = ma" by (simp add: count_edges_autorange_def Let_def)
    with fa show ?thesis by simp
  next
    case False
    let ?mb = "ma\<lparr>con := emit [Message BPMSG1245] (con ma), regs := (regs ma)(T2CON := 0b001010)\<rparr>"
    from assms first False obtain c' where second: "poll_frequency_counter_value ?mb = Inr (c', m1)"
      by (auto simp: count_edges_autorange_def Let_def split: sum.splits)
    from poll_frame [OF second] fa show ?thesis by (simp add: emit_def)
  qed
qed

lemma poll_captures:
  assumes "poll_frequency_counter_value m = Inr (c, m')"
  shows "captures (pin m') = captures (pin m)"
  using assms
  by (auto simp: poll_frequency_counter_value_def Let_def split: list.splits prod.splits)

lemma count_edges_captures:
  assumes "count_edges_autorange P m = Inr (f, m1)"
  shows "captures (pin m1) = captures (pin m)"
proof -
  let ?m0 = "m\<lparr>regs := (regs m)(T4CON := 0, T2CON := 0, AUXPIN_DIR := 1,
                        RPINR3_T2CKR := AUXPIN_RPIN P, T2CON := 0b111010)\<rparr>"
  obtain c ma where first: "poll_frequency_counter_value ?m0 = Inr (c, ma)"
    using assms by (auto simp: count_edges_autorange_def Let_def split: sum.splits)
  note fa = poll_captures [OF first]
  show ?thesis
  proof (cases "(ucast c :: uint64_t) > 0x3fff")
    case True
    with assms first have "m1 = ma" by (simp add: count_edges_autorange_def Let_def)
    with fa show ?thesis by simp
  next
    case False
    let ?mb = "ma\<lparr>con := emit [Message BPMSG1245] (con ma), regs := (regs ma)(T2CON := 0b001010)\<rparr>"
    from assms first False obtain c' where second: "poll_frequency_counter_value ?mb = Inr (c', m1)"
      by (auto simp: count_edges_autorange_def Let_def split: sum.splits)
    from poll_captures [OF second] fa show ?thesis by simp
  qed
qed

lemma average_unfold:
  assumes caps: "captures (pin m) = (ic1buf, ic2buf) # cs"
    and loop: "sample_loop (unat count) cs (ucast ic1buf) (ucast ic2buf) 0 = Inr (tot, later)"
  shows "average_sample_frequency P count m =
        (if count = 0 then Inl Division_by_zero
         else Inr (tot div ucast count,
                   m\<lparr>regs := stop_input_capture P (arm_input_capture P (regs m)),
                      pin := (pin m)\<lparr>captures := later\<rparr>\<rparr>))"
  unfolding average_sample_frequency_def Let_def caps list.case prod.case loop sum.case
  by (rule refl)

lemma average_frame:
  assumes "average_sample_frequency P count m = Inr (p, m2)"
  shows "con m2 = con m \<and> state m2 = state m"
proof (cases "captures (pin m)")
  case Nil
  with assms show ?thesis by (simp add: average_sample_frequency_def)
next
  case (Cons b cs)
  then obtain ic1buf ic2buf where caps: "captures (pin m) = (ic1buf, ic2buf) # cs"
    by (cases b) simp
  show ?thesis
  proof (cases "sample_loop (unat count) cs (ucast ic1buf) (ucast ic2buf) 0")
    case (Inl e)
    with assms caps show ?thesis by (simp add: average_sample_frequency_def)
  next
    case (Inr r)
    then obtain tot later where
      loop: "sample_loop (unat count) cs (ucast ic1buf) (ucast ic2buf) 0 = Inr (tot, later)"
      by (cases r) simp
    note eq = average_unfold [OF caps loop, of P]
    show ?thesis
    proof (cases "count = 0")
      case True
      with assms eq show ?thesis by simp
    next
      case False
      with assms eq have "m2 = m\<lparr>regs := stop_input_capture P (arm_input_capture P (regs m)),
                      pin := (pin m)\<lparr>captures := later\<rparr>\<rparr>"
        by simp
      then show ?thesis by simp
    qed
  qed
qed

lemma uint_ucast_32_64_unat: "unat (ucast (p :: uint32_t) :: uint64_t) = unat p"
proof -
  have "unat p < 2 ^ 32" using unsigned_less [of p] by simp
  then have "unat p < 2 ^ 64" by simp
  then show ?thesis by (simp add: unsigned_ucast_eq take_bit_nat_eq_self)
qed

lemma period_branch_run:
  assumes "mode (state m) \<noteq> AUX_MODE_PWM"
    and "count_edges_autorange P (m\<lparr>con := emit [Message BPMSG1038] (con m)\<rparr>) = Inr (f, m1)"
    and "0 < f" and "f \<le> 3999"
    and "average_sample_frequency P (ucast f)
           (m1\<lparr>con := emit [Message BPMSG1245] (con m1)\<rparr>) = Inr (p, m2)"
  shows "bp_frequency_counter_setup P m =
           Inr (m2\<lparr>con := emit (write_period_frequency P (ucast p) @ [Message MSG_PWM_HZ_MARKER])
                             (emit [Message BPMSG1245] (con m1)),
                   regs := (regs m2)(RPINR3_T2CKR := 0b11111, T4CON := 0, T2CON := 0)\<rparr>)"
proof -
  have not_high: "\<not> f > 3999" using assms(4) by simp
  have c2: "con m2 = emit [Message BPMSG1245] (con m1)"
    using average_frame [OF assms(5)] by simp
  show ?thesis
    using assms(1,2,3,5) not_high by (simp add: bp_frequency_counter_setup_def c2)
qed

lemma period_branch:
  assumes "mode (state m) \<noteq> AUX_MODE_PWM"
    and "count_edges_autorange P (m\<lparr>con := emit [Message BPMSG1038] (con m)\<rparr>) = Inr (f, m1)"
    and "0 < f" and "f \<le> 3999"
    and "average_sample_frequency P (ucast f)
           (m1\<lparr>con := emit [Message BPMSG1245] (con m1)\<rparr>) = Inr (p, m2)"
  shows "\<exists>m' pre. bp_frequency_counter_setup P m = Inr m'
           \<and> sent m m' = pre @ write_period_frequency P (ucast p) @ [Message MSG_PWM_HZ_MARKER]
           \<and> UART1TX CHR ''.'' \<notin> set pre"
proof -
  let ?m' = "m2\<lparr>con := emit (write_period_frequency P (ucast p) @ [Message MSG_PWM_HZ_MARKER])
                             (emit [Message BPMSG1245] (con m1)),
                 regs := (regs m2)(RPINR3_T2CKR := 0b11111, T4CON := 0, T2CON := 0)\<rparr>"
  note run = period_branch_run [OF assms]
  from count_edges_frame [OF assms(2)]
  have "uart (con m1) = uart (con m) @ [Message BPMSG1038]
      \<or> uart (con m1) = uart (con m) @ [Message BPMSG1038, Message BPMSG1245]"
    by (simp add: emit_def)
  then have "\<exists>pre. sent m ?m' = pre @ write_period_frequency P (ucast p) @ [Message MSG_PWM_HZ_MARKER]
      \<and> UART1TX CHR ''.'' \<notin> set pre"
  proof
    assume "uart (con m1) = uart (con m) @ [Message BPMSG1038]"
    then have "sent m ?m' = [Message BPMSG1038, Message BPMSG1245]
        @ write_period_frequency P (ucast p) @ [Message MSG_PWM_HZ_MARKER]"
      by (simp add: sent_def emit_def)
    then show ?thesis by (intro exI [of _ "[Message BPMSG1038, Message BPMSG1245]"]) simp
  next
    assume "uart (con m1) = uart (con m) @ [Message BPMSG1038, Message BPMSG1245]"
    then have "sent m ?m' = [Message BPMSG1038, Message BPMSG1245, Message BPMSG1245]
        @ write_period_frequency P (ucast p) @ [Message MSG_PWM_HZ_MARKER]"
      by (simp add: sent_def emit_def)
    then show ?thesis
      by (intro exI [of _ "[Message BPMSG1038, Message BPMSG1245, Message BPMSG1245]"]) simp
  qed
  with run show ?thesis by blast
qed

lemma period_branch_digits:
  assumes "mode (state m) \<noteq> AUX_MODE_PWM"
    and "count_edges_autorange P (m\<lparr>con := emit [Message BPMSG1038] (con m)\<rparr>) = Inr (f, m1)"
    and "0 < f" and "f \<le> 3999"
    and "average_sample_frequency P (ucast f)
           (m1\<lparr>con := emit [Message BPMSG1245] (con m1)\<rparr>) = Inr (p, m2)"
  shows "\<exists>m'. bp_frequency_counter_setup P m = Inr m'
           \<and> length (fraction_digits (sent m m')) =
               (if 400000 < unat p then 5 else if 126491 < unat p then 4
                else if 40000 < unat p then 3 else if 12649 < unat p then 2 else 1)"
proof -
  from period_branch [OF assms] obtain m' pre where
    run: "bp_frequency_counter_setup P m = Inr m'"
    and out: "sent m m' = pre @ write_period_frequency P (ucast p) @ [Message MSG_PWM_HZ_MARKER]"
    and pre: "UART1TX CHR ''.'' \<notin> set pre"
    by blast
  from fraction_digits_period [OF pre, of P "ucast p"] out run show ?thesis
    by (simp add: uint_ucast_32_64_unat)
qed

text \<open>
  Claim C7. When the edge count is between 1 and 3999 and the measured average period
  is \<open>p\<close>, \<open>bp_frequency_counter_setup\<close> writes the frequency with 5 digits after
  the decimal point if \<open>p > 400000\<close>, with 4 if \<open>126491 < p \<le> 400000\<close>, with 3
  if \<open>40000 < p \<le> 126491\<close>, with 2 if \<open>12649 < p \<le> 40000\<close>, and with 1
  if \<open>p \<le> 12649\<close>.
\<close>

theorem resolution_tier_selection:
  assumes "mode (state m) \<noteq> AUX_MODE_PWM"
    and "count_edges_autorange P (m\<lparr>con := emit [Message BPMSG1038] (con m)\<rparr>) = Inr (f, m1)"
    and "0 < f" and "f \<le> 3999"
    and "average_sample_frequency P (ucast f)
           (m1\<lparr>con := emit [Message BPMSG1245] (con m1)\<rparr>) = Inr (p, m2)"
  shows "\<exists>m'. bp_frequency_counter_setup P m = Inr m'
           \<and> length (fraction_digits (sent m m')) =
               (if 400000 < unat p then 5 else if 126491 < unat p then 4
                else if 40000 < unat p then 3 else if 12649 < unat p then 2 else 1)"
  using assms by (rule period_branch_digits)

lemma write_20000: "write_period_frequency bench 20000 = map UART1TX ''800.00''"
  by (simp add: write_period_frequency_def bench_def Let_def bp_write_dec_dword_friendly_def
      bp_write_dec_byte_def decimal_friendly.simps decimal.simps digit_char_def digits_def)

lemma stamp_diff:
  "push_bit 16 (ch - kh) + (cl - kl) = stamp cl ch - stamp kl (kh :: uint32_t)"
  by (simp add: stamp_def push_bit_eq_mult algebra_simps)

lemma ucast_of_nat_16_32:
  "(ucast (word_of_nat t :: uint16_t) :: uint32_t) = word_of_nat (t mod 65536)"
  by (simp add: unsigned_of_nat take_bit_eq_mod)

lemma stamp_capture:
  assumes "t < 2 ^ 32"
  shows "stamp (ucast (fst (capture_at t))) (ucast (snd (capture_at t))) = word_of_nat t"
proof -
  have small: "t div 65536 < 65536" using assms by simp
  have "(word_of_nat t :: uint32_t) = word_of_nat (t div 65536 * 65536 + t mod 65536)"
    by simp
  also have "\<dots> = word_of_nat (t div 65536) * 65536 + word_of_nat (t mod 65536)"
    by (simp only: of_nat_add of_nat_mult of_nat_numeral)
  finally show ?thesis
    using small by (simp add: stamp_def capture_at_def ucast_of_nat_16_32 push_bit_eq_mult)
qed

lemma sample_loop_stamps:
  assumes "\<forall>t\<in>set (t0 # ts). t < 2 ^ 32"
  shows "sample_loop (length ts) (map capture_at ts)
           (ucast (fst (capture_at t0))) (ucast (snd (capture_at t0))) tot
         = Inr (tot + (word_of_nat (last (t0 # ts)) - word_of_nat t0), [])"
  using assms
proof (induction ts arbitrary: t0 tot)
  case Nil
  then show ?case by simp
next
  case (Cons t ts)
  have t0: "t0 < 2 ^ 32" and t: "t < 2 ^ 32" and rest: "\<forall>x\<in>set (t # ts). x < 2 ^ 32"
    using Cons.prems by simp_all
  obtain lo hi where c: "capture_at t = (lo, hi)" by (cases "capture_at t")
  have lohi: "lo = fst (capture_at t)" "hi = snd (capture_at t)" using c by simp_all
  have step: "push_bit 16 (ucast hi - ucast (snd (capture_at t0)))
        + (ucast lo - ucast (fst (capture_at t0)))
      = (word_of_nat t - word_of_nat t0 :: uint32_t)"
    unfolding stamp_diff lohi by (simp only: stamp_capture [OF t] stamp_capture [OF t0])
  have "sample_loop (length (t # ts)) (map capture_at (t # ts))
           (ucast (fst (capture_at t0))) (ucast (snd (capture_at t0))) tot
      = sample_loop (length ts) (map capture_at ts) (ucast (fst (capture_at t)))
           (ucast (snd (capture_at t))) (tot + (word_of_nat t - word_of_nat t0))"
    using step by (simp add: c Let_def lohi [symmetric])
  also have "\<dots> = Inr (tot + (word_of_nat t - word_of_nat t0)
        + (word_of_nat (last (t # ts)) - word_of_nat t), [])"
    by (rule Cons.IH [OF rest])
  finally show ?case by simp
qed


lemma later_edges_facts:
  "length later_edges = 800" "last (0 # later_edges) = 16000000"
  "\<forall>t\<in>set (0 # later_edges). t < 2 ^ 32"
proof -
  show "length later_edges = 800" by (simp add: later_edges_def)
  have ne: "later_edges \<noteq> []" by (simp add: later_edges_def)
  have "last later_edges = 20000 * last [1..<801]"
    unfolding later_edges_def by (rule last_map) simp
  then show "last (0 # later_edges) = 16000000" using ne by simp
  show "\<forall>t\<in>set (0 # later_edges). t < 2 ^ 32" by (auto simp: later_edges_def)
qed

lemma steady_run:
  "\<exists>m1 m2. count_edges_autorange bench
             ((power_on\<lparr>pin := steady_signal\<rparr>)
                \<lparr>con := emit [Message BPMSG1038] (con (power_on\<lparr>pin := steady_signal\<rparr>))\<rparr>)
           = Inr (800, m1)
       \<and> uart (con m1) = [Message BPMSG1038, Message BPMSG1245]
       \<and> average_sample_frequency bench (ucast (800 :: uint64_t))
            (m1\<lparr>con := emit [Message BPMSG1245] (con m1)\<rparr>) = Inr (20000, m2)"
proof -
  let ?m = "(power_on\<lparr>pin := steady_signal\<rparr>)
                \<lparr>con := emit [Message BPMSG1038] (con (power_on\<lparr>pin := steady_signal\<rparr>))\<rparr>"
  have w: "windows (pin ?m) = (3, 0) # [(800, 0)]"
    by (simp add: power_on_def steady_signal_def)
  have e1: "edge_count (3, 0) = 3" and e2: "edge_count (800, 0) = 800"
    by (simp_all add: edge_count_def)
  from autorange_cases [OF w, of bench] e1 e2
  obtain m1 where m1: "count_edges_autorange bench ?m = Inr (800, m1)"
    and s1: "sent ?m m1 = [Message BPMSG1245]"
    by auto
  have "uart (con ?m) = [Message BPMSG1038]" by (simp add: power_on_def emit_def)
  moreover from count_edges_frame [OF m1]
  have "uart (con m1) = uart (con ?m) \<or> uart (con m1) = uart (con ?m) @ [Message BPMSG1245]"
    by simp
  ultimately have u1: "uart (con m1) = [Message BPMSG1038, Message BPMSG1245]"
    using s1 by (auto simp: sent_def)
  have c0: "capture_at 0 = (0, 0)" by (simp add: capture_at_def)
  have caps: "captures (pin (m1\<lparr>con := emit [Message BPMSG1245] (con m1)\<rparr>))
      = (0, 0) # map capture_at later_edges"
    using count_edges_captures [OF m1] by (simp add: power_on_def steady_signal_def c0)
  have "sample_loop (length later_edges) (map capture_at later_edges)
      (ucast (fst (capture_at 0))) (ucast (snd (capture_at 0))) 0
      = Inr (0 + (word_of_nat (last (0 # later_edges)) - word_of_nat 0), [])"
    using later_edges_facts(3) by (rule sample_loop_stamps)
  then have "sample_loop (length later_edges) (map capture_at later_edges)
      (ucast (fst (capture_at 0))) (ucast (snd (capture_at 0))) 0
      = Inr (0 + (word_of_nat 16000000 - word_of_nat 0), [])"
    by (simp only: later_edges_facts(2))
  then have loop: "sample_loop (unat (ucast (800 :: uint64_t) :: uint16_t)) (map capture_at later_edges)
      (ucast (0 :: uint16_t)) (ucast (0 :: uint16_t)) 0 = Inr (16000000, [])"
    by (simp add: later_edges_facts(1) c0)
  from average_unfold [OF caps loop, of bench] m1 u1 show ?thesis by simp
qed

lemma steady_transcript:
  "map_sum id (sent (power_on\<lparr>pin := steady_signal\<rparr>))
     (bp_frequency_counter_setup bench (power_on\<lparr>pin := steady_signal\<rparr>)) =
   Inr ([Message BPMSG1038, Message BPMSG1245, Message BPMSG1245] @ map UART1TX ''800.00''
        @ [Message MSG_PWM_HZ_MARKER])"
proof -
  let ?M = "power_on\<lparr>pin := steady_signal\<rparr>"
  from steady_run obtain m1 m2 where
    a: "count_edges_autorange bench (?M\<lparr>con := emit [Message BPMSG1038] (con ?M)\<rparr>) = Inr (800, m1)"
    and u1: "uart (con m1) = [Message BPMSG1038, Message BPMSG1245]"
    and b: "average_sample_frequency bench (ucast (800 :: uint64_t))
            (m1\<lparr>con := emit [Message BPMSG1245] (con m1)\<rparr>) = Inr (20000, m2)"
    by blast
  have io: "mode (state ?M) \<noteq> AUX_MODE_PWM" by (simp add: power_on_def)
  have "uart (con ?M) = []" by (simp add: power_on_def)
  with period_branch_run [OF io a _ _ b] u1 show ?thesis
    by (simp add: sent_def emit_def write_20000)
qed

theorem resolution_tier_selection_witness:
  "map_sum id (\<lambda>m'. length (fraction_digits (sent (power_on\<lparr>pin := steady_signal\<rparr>) m')))
     (bp_frequency_counter_setup bench (power_on\<lparr>pin := steady_signal\<rparr>)) = Inr 2"
proof -
  let ?M = "power_on\<lparr>pin := steady_signal\<rparr>"
  from steady_run obtain m1 m2 where
    a: "count_edges_autorange bench (?M\<lparr>con := emit [Message BPMSG1038] (con ?M)\<rparr>) = Inr (800, m1)"
    and b: "average_sample_frequency bench (ucast (800 :: uint64_t))
            (m1\<lparr>con := emit [Message BPMSG1245] (con m1)\<rparr>) = Inr (20000, m2)"
    by blast
  have io: "mode (state ?M) \<noteq> AUX_MODE_PWM" by (simp add: power_on_def)
  from resolution_tier_selection [OF io a _ _ b] show ?thesis by auto
qed

text \<open>
  The claim C8 as first stated asks for one decimal place. On the bench, with an
  a steady signal of 800 Hz (an average period of 20000 ticks), the output is \<open>800.00\<close>: two decimal places.
\<close>

theorem period_20000_counterexample:
  "map_sum id (sent (power_on\<lparr>pin := steady_signal\<rparr>))
     (bp_frequency_counter_setup bench (power_on\<lparr>pin := steady_signal\<rparr>)) =
   Inr ([Message BPMSG1038, Message BPMSG1245, Message BPMSG1245] @ map UART1TX ''800.00''
        @ [Message MSG_PWM_HZ_MARKER])
   \<and> length (fraction_digits ([Message BPMSG1038, Message BPMSG1245, Message BPMSG1245]
        @ map UART1TX ''800.00'' @ [Message MSG_PWM_HZ_MARKER])) \<noteq> 1"
proof -
  have "fraction_digits ([Message BPMSG1038, Message BPMSG1245, Message BPMSG1245]
        @ map UART1TX ''800.00'' @ [Message MSG_PWM_HZ_MARKER]) = map UART1TX ''00''"
    by (simp add: fraction_digits_def is_digit_def digits_def)
  with steady_transcript show ?thesis by simp
qed


lemma tier_of_20000:
  "write_period_frequency P 20000 =
     (let f = double_quotient P 1600000000 20000;
          g = f mod 100
      in bp_write_dec_dword_friendly (ucast (f div 100)) @ [UART1TX CHR ''.'']
         @ (if g < 10 then [UART1TX CHR ''0''] else [])
         @ bp_write_dec_byte (ucast g))"
  by (simp add: write_period_frequency_def)

text \<open>
  Claim C8, as amended. For a measured average period of exactly 20000 ticks,
  \<open>bp_frequency_counter_setup\<close> takes the branch for \<open>p > 12649\<close> (scale
  \<open>16e8\<close>, resolution .01) and writes the frequency with two digits after the
  decimal point.
\<close>

theorem period_20000_two_decimal_places:
  assumes "mode (state m) \<noteq> AUX_MODE_PWM"
    and "count_edges_autorange P (m\<lparr>con := emit [Message BPMSG1038] (con m)\<rparr>) = Inr (f, m1)"
    and "0 < f" and "f \<le> 3999"
    and "average_sample_frequency P (ucast f)
           (m1\<lparr>con := emit [Message BPMSG1245] (con m1)\<rparr>) = Inr (20000, m2)"
  shows "(\<exists>m' pre. bp_frequency_counter_setup P m = Inr m'
            \<and> sent m m' = pre @ write_period_frequency P 20000 @ [Message MSG_PWM_HZ_MARKER]
            \<and> UART1TX CHR ''.'' \<notin> set pre
            \<and> length (fraction_digits (sent m m')) = 2)
       \<and> write_period_frequency P 20000 =
           (let f = double_quotient P 1600000000 20000;
                g = f mod 100
            in bp_write_dec_dword_friendly (ucast (f div 100)) @ [UART1TX CHR ''.'']
               @ (if g < 10 then [UART1TX CHR ''0''] else [])
               @ bp_write_dec_byte (ucast g))"
proof -
  from period_branch [OF assms] obtain m' pre where
    run: "bp_frequency_counter_setup P m = Inr m'"
    and out: "sent m m' = pre @ write_period_frequency P 20000 @ [Message MSG_PWM_HZ_MARKER]"
    and pre: "UART1TX CHR ''.'' \<notin> set pre"
    by auto
  from fraction_digits_period [OF pre, of P 20000] out
  have "length (fraction_digits (sent m m')) = 2" by simp
  with run out pre tier_of_20000 [of P] show ?thesis by blast
qed

theorem period_20000_two_decimal_places_witness:
  "map_sum id (\<lambda>m'. fraction_digits (sent (power_on\<lparr>pin := steady_signal\<rparr>) m'))
     (bp_frequency_counter_setup bench (power_on\<lparr>pin := steady_signal\<rparr>))
   = Inr (map UART1TX ''00'')"
proof -
  let ?M = "power_on\<lparr>pin := steady_signal\<rparr>"
  from steady_run obtain m1 m2 where
    a: "count_edges_autorange bench (?M\<lparr>con := emit [Message BPMSG1038] (con ?M)\<rparr>) = Inr (800, m1)"
    and b: "average_sample_frequency bench (ucast (800 :: uint64_t))
            (m1\<lparr>con := emit [Message BPMSG1245] (con m1)\<rparr>) = Inr (20000, m2)"
    by blast
  have io: "mode (state ?M) \<noteq> AUX_MODE_PWM" by (simp add: power_on_def)
  from period_20000_two_decimal_places [OF io a _ _ b]
  obtain m' where "bp_frequency_counter_setup bench ?M = Inr m'" by auto
  with steady_transcript show ?thesis
    by (simp add: fraction_digits_def is_digit_def digits_def)
qed


text \<open>The number of digits on both sides of each threshold.\<close>

lemma tier_boundaries:
  "map (\<lambda>p. length (fraction_digits (write_period_frequency P p @ [Message MSG_PWM_HZ_MARKER])))
     [12649, 12650, 40000, 40001, 126491, 126492, 400000, 400001]
   = [1, 2, 2, 3, 3, 4, 4, 5]"
  using fraction_digits_period [of "[]" P] by simp

subsection \<open>The servo on-time\<close>

lemma servo_ticks_table: "map servo_ticks [0..180] = servo_table"
  unfolding servo_table_def by code_simp

lemma sorted_servo_table: "sorted servo_table"
  unfolding servo_table_def by code_simp

lemma length_servo_table: "length servo_table = 181"
  unfolding servo_table_def by simp

lemma servo_table_ends: "servo_table ! 0 = 62" "servo_table ! 90 = 94" "servo_table ! 180 = 126"
  unfolding servo_table_def by simp_all

lemma servo_ticks_nth:
  assumes "0 \<le> a" and "a \<le> 180"
  shows "servo_ticks a = servo_table ! nat a"
proof -
  have len: "nat a < length [0..180]" using assms by simp
  have "map servo_ticks [0..180] ! nat a = servo_ticks ([0..180] ! nat a)"
    using len by (rule nth_map)
  moreover have "[0..180] ! nat a = a" using assms by (simp add: nth_upto)
  ultimately show ?thesis by (simp add: servo_ticks_table)
qed

lemma servo_ticks_mono:
  assumes "0 \<le> a" and "a \<le> b" and "b \<le> 180"
  shows "servo_ticks a \<le> servo_ticks b"
proof -
  have "servo_table ! nat a \<le> servo_table ! nat b"
    using assms by (intro sorted_nth_mono [OF sorted_servo_table]) (simp_all add: length_servo_table)
  with assms show ?thesis by (simp add: servo_ticks_nth)
qed

lemma servo_ticks_range:
  assumes "0 \<le> a" and "a \<le> 180"
  shows "62 \<le> servo_ticks a" and "servo_ticks a \<le> 126"
proof -
  have "servo_ticks 0 \<le> servo_ticks a" using assms by (intro servo_ticks_mono) simp_all
  moreover have "servo_ticks a \<le> servo_ticks 180" using assms by (intro servo_ticks_mono) simp_all
  moreover have "servo_ticks 0 = 62" "servo_ticks 180 = 126"
    by (simp_all add: servo_ticks_nth servo_table_ends)
  ultimately show "62 \<le> servo_ticks a" and "servo_ticks a \<le> 126" by simp_all
qed

lemma servoset_ticks:
  assumes "0 \<le> servo_ticks a" and "servo_ticks a < 65536"
  shows "\<exists>m'. servoset P (float_of_int a) m = Inr m'
           \<and> regs m' OC5R = word_of_int (servo_ticks a)
           \<and> regs m' OC5RS = word_of_int (servo_ticks a)
           \<and> regs m' PR2 = 1250
           \<and> mode (state m') = AUX_MODE_PWM"
  using assms
  by (simp add: servoset_def float_to_unsigned_def servo_ticks_def Let_def)

lemma word_of_int_mono_16:
  assumes "0 \<le> x" and "x \<le> y" and "y < 65536"
  shows "(word_of_int x :: uint16_t) \<le> word_of_int y"
proof -
  have "uint (word_of_int x :: uint16_t) = x" "uint (word_of_int y :: uint16_t) = y"
    using assms by (simp_all add: uint_word_of_int take_bit_int_eq_self)
  with assms show ?thesis by (simp add: word_le_def)
qed

text \<open>
  Claim C9. For angles \<open>0 \<le> a \<le> b \<le> 180\<close> the code at \<open>servoset\<close> returns
  for both, with the period register at 1250 and the on-time for \<open>a\<close> not above the
  on-time for \<open>b\<close>; at angle 0 the on-time is 62, at angle 90 it is 94.
\<close>

theorem servo_on_time_monotone:
  assumes "0 \<le> a" and "a \<le> b" and "b \<le> 180"
  shows "(\<exists>ma mb. servoset P (float_of_int a) m = Inr ma
             \<and> servoset P (float_of_int b) m = Inr mb
             \<and> regs ma OC5R \<le> regs mb OC5R
             \<and> regs ma PR2 = 1250 \<and> regs mb PR2 = 1250)
       \<and> (\<exists>m0. servoset P (float_of_int 0) m = Inr m0 \<and> regs m0 OC5R = 62)
       \<and> (\<exists>m90. servoset P (float_of_int 90) m = Inr m90 \<and> regs m90 OC5R = 94)"
proof (intro conjI)
  have ra: "0 \<le> servo_ticks a" "servo_ticks a < 65536"
    using servo_ticks_range [of a] assms by simp_all
  have rb: "0 \<le> servo_ticks b" "servo_ticks b < 65536"
    using servo_ticks_range [of b] assms by simp_all
  from servoset_ticks [OF ra, of P m] obtain ma where
    ma: "servoset P (float_of_int a) m = Inr ma" "regs ma OC5R = word_of_int (servo_ticks a)"
      "regs ma PR2 = 1250"
    by blast
  from servoset_ticks [OF rb, of P m] obtain mb where
    mb: "servoset P (float_of_int b) m = Inr mb" "regs mb OC5R = word_of_int (servo_ticks b)"
      "regs mb PR2 = 1250"
    by blast
  have "regs ma OC5R \<le> regs mb OC5R"
    unfolding ma mb using ra rb servo_ticks_mono [OF assms] by (intro word_of_int_mono_16)
  with ma mb show "\<exists>ma mb. servoset P (float_of_int a) m = Inr ma
             \<and> servoset P (float_of_int b) m = Inr mb
             \<and> regs ma OC5R \<le> regs mb OC5R
             \<and> regs ma PR2 = 1250 \<and> regs mb PR2 = 1250"
    by blast
next
  have "servo_ticks 0 = 62" by (simp add: servo_ticks_nth servo_table_ends)
  with servoset_ticks [of 0 P m]
  show "\<exists>m0. servoset P (float_of_int 0) m = Inr m0 \<and> regs m0 OC5R = 62" by auto
next
  have "servo_ticks 90 = 94" by (simp add: servo_ticks_nth servo_table_ends)
  with servoset_ticks [of 90 P m]
  show "\<exists>m90. servoset P (float_of_int 90) m = Inr m90 \<and> regs m90 OC5R = 94" by auto
qed

theorem servo_on_time_monotone_witness:
  "\<forall>P m. (\<exists>ma mb. servoset P (float_of_int 45) m = Inr ma
             \<and> servoset P (float_of_int 135) m = Inr mb
             \<and> regs ma OC5R \<le> regs mb OC5R
             \<and> regs ma PR2 = 1250 \<and> regs mb PR2 = 1250)"
  using servo_on_time_monotone [of 45 135] by simp

lemma none_above_180: "filter above_180 [0..180] = []"
  by code_simp

lemma not_above_180:
  assumes "0 \<le> a" and "a \<le> 180"
  shows "\<not> float_less (float_of_int 180) (float_of_int a)"
proof -
  have "a \<in> set [0..180]" using assms by simp
  moreover have "\<forall>x\<in>set [0..180]. \<not> above_180 x"
    using none_above_180 by (simp only: filter_empty_conv)
  ultimately show ?thesis by (simp add: above_180_def)
qed

lemma servo_entry_loop_once:
  "servo_entry_loop P PWM_pd False m = Some (servoset P PWM_pd m)"
  by (subst servo_entry_loop.simps) (simp split: sum.splits)

text \<open>
  With an angle between 0 and 180 on the command line, \<open>bp_servo_setup\<close> clears the
  timers and runs the code at \<open>servoset\<close> once, with that angle.
\<close>

lemma bp_servo_setup_command_line:
  assumes "\<not> (mode (state m) = AUX_MODE_PWM \<and> cmd_ahead P (con m) = 0)"
    and "getint P (consumewhitechars P
           ((con m)\<lparr>cmdstart := (cmdstart (con m) + 1) AND CMDLENMSK P\<rparr>)) = (n, c)"
    and "\<not> command_error c" and "0 \<le> sint n" and "sint n \<le> 180"
  shows "bp_servo_setup P m =
           Some (servoset P (float_of_int (sint n))
                   (m\<lparr>regs := (regs m)(T2CON := 0, T4CON := 0, OC5CON := 0), con := c\<rparr>))"
  using assms not_above_180 [of "sint n"]
  by (auto simp: bp_servo_setup_def Let_def servo_entry_loop_once)

subsection \<open>The interactive PWM command\<close>

lemma bp_pwm_setup_state:
  assumes "bp_pwm_setup P m = Inr m'"
  shows "pwm_frequency (state m') = pwm_frequency (state m)
       \<and> pwm_duty_cycle (state m') = pwm_duty_cycle (state m)"
  using assms
  by (auto simp: bp_pwm_setup_def Let_def split: if_splits prod.splits sum.splits)

text \<open>
  Claim C10. Whenever \<open>bp_pwm_setup\<close> returns, \<open>pwm_frequency\<close> and
  \<open>pwm_duty_cycle\<close> hold what they held before the call, so that a following
  \<open>bp_update_duty_cycle\<close> programs the PWM at the frequency recorded earlier, not at
  the one entered at the prompt.
\<close>

theorem bp_pwm_setup_keeps_frequency_and_duty:
  assumes "bp_pwm_setup P m = Inr m'"
  shows "pwm_frequency (state m') = pwm_frequency (state m)
       \<and> pwm_duty_cycle (state m') = pwm_duty_cycle (state m)
       \<and> bp_update_duty_cycle P duty_cycle m' = bp_update_pwm P (pwm_frequency (state m)) duty_cycle m'"
  using bp_pwm_setup_state [OF assms] by (simp add: bp_update_duty_cycle_def)

lemma half_of_15: "float_to_unsigned (float_mul (float_of_int 15)
    (float_div (float_of_int 50) (float_of_int 100))) = Inr 7"
  by code_simp

lemma zero_not_positive: "\<not> float_less (float_of_int 0) (float_of_int 0)"
  by code_simp

lemma typed_1000: "read_number 0 [49, 48, 48, 48, 10, 53, 48, 10] = (1000, [53, 48, 10])"
  by simp

lemma typed_50: "read_number 0 [53, 48, 10] = (50, [])"
  by simp


lemma session_state:
  "state interactive_session = \<lparr>pwm_frequency = 25, pwm_duty_cycle = 10, mode = AUX_MODE_PWM\<rparr>"
  by (simp add: interactive_session_def bp_update_pwm_def power_on_def Let_def split_beta)

lemma session_con:
  "con interactive_session = \<lparr>cmdbuf = (\<lambda>_. 0x20), cmdstart = 0, command_error = False,
                 keys = [49, 48, 48, 48, 10, 53, 48, 10], uart = []\<rparr>"
  by (simp add: interactive_session_def)

lemma session_run:
  "\<exists>m'. bp_pwm_setup bench interactive_session = Inr m'
       \<and> regs m' PR2 = 15 \<and> regs m' OC5R = 7 \<and> regs m' OC5RS = 7
       \<and> mode (state m') = AUX_MODE_PWM
       \<and> uart (con m') = [Message BPMSG1028, Message BPMSG1029, Message BPMSG1030,
                               Message BPMSG1033, Message BPMSG1034]"
  by (simp add: bp_pwm_setup_def session_state session_con bench_def bench_getnumber_def
      cmd_ahead_def emit_def zero_not_positive typed_1000 typed_50 half_of_15
      setup_prescaler_divisor_def PWM_DIVISOR_PRESCALER_1_1_def Let_def)

theorem bp_pwm_setup_keeps_frequency_and_duty_witness:
  "map_sum id (\<lambda>m'. (regs m' PR2, pwm_frequency (state m'), pwm_duty_cycle (state m'),
                      regs (bp_update_duty_cycle bench 20 m') PR2))
     (bp_pwm_setup bench interactive_session) = Inr (15, 25, 10, 9)"
proof -
  from session_run obtain m' where run: "bp_pwm_setup bench interactive_session = Inr m'"
    and pr2: "regs m' PR2 = 15" by blast
  from bp_pwm_setup_keeps_frequency_and_duty [OF run, of 20]
  have st: "pwm_frequency (state m') = 25" "pwm_duty_cycle (state m') = 10"
    and dc: "bp_update_duty_cycle bench 20 m' = bp_update_pwm bench 25 20 m'"
    by (simp_all add: session_state)
  have "regs (bp_update_pwm bench 25 20 m') PR2 = 9"
    by (simp add: bp_update_pwm_def setup_prescaler_divisor_def Let_def
        PWM_DIVISOR_PRESCALER_1_64_def)
  with run pr2 st dc show ?thesis by simp
qed

text \<open>
  Entered without arguments while the PWM is on, the command only switches it off; the
  recorded frequency is not reset.
\<close>

lemma bp_pwm_setup_toggle_off:
  assumes "mode (state m) = AUX_MODE_PWM" and "cmd_ahead P (con m) = 0"
  shows "bp_pwm_setup P m =
           Inr (m\<lparr>regs := (regs m)(T2CON := 0, T4CON := 0, OC5CON := 0, AUXPIN_RPOUT := 0),
                   con := emit [Message BPMSG1028] (con m),
                   state := (state m)\<lparr>mode := AUX_MODE_IO\<rparr>\<rparr>)"
  using assms by (simp add: bp_pwm_setup_def Let_def cmd_ahead_def emit_def)


end
